theory Spec2Isabelle
  imports Main "HOL-Library.Sublist"
begin

section \<open>The order-image bundler (netlify/functions/fetchImages.js)\<close>

text \<open>
  A shallow embedding of the four helper functions and the handler of
  \<^verbatim>\<open>fetchImages.js\<close>. The JavaScript is asynchronous but strictly sequential: every
  \<^verbatim>\<open>await\<close> is a point where one network request is outstanding. The embedding
  therefore threads the list of requests issued so far through every function, and reads
  the reply to a request from a fixed description of the outside world.
\<close>

subsection \<open>JavaScript values and strings\<close>

text \<open>
  A JavaScript string or \<^verbatim>\<open>null\<close>: \<open>None\<close> is \<^verbatim>\<open>null\<close>. Such a value is truthy
  when it is a non-empty string.
\<close>

definition truthy :: "string option \<Rightarrow> bool" where
  "truthy v = (case v of None \<Rightarrow> False | Some s \<Rightarrow> s \<noteq> [])"

text \<open>Decimal rendering of a number inside a template literal.\<close>

definition digit_char :: "nat \<Rightarrow> char" where
  "digit_char d = ''0123456789'' ! d"

fun string_of_nat :: "nat \<Rightarrow> string" where
  "string_of_nat n =
     (if n < 10 then [digit_char n]
      else string_of_nat (n div 10) @ [digit_char (n mod 10)])"

declare string_of_nat.simps [simp del]



definition string_of_int :: "int \<Rightarrow> string" where
  "string_of_int i = (if i < 0 then CHR ''-'' # string_of_nat (nat (- i)) else string_of_nat (nat i))"

subsection \<open>The network\<close>

text \<open>
  A request is the URL handed to \<^verbatim>\<open>fetch\<close> and the value of the
  \<^verbatim>\<open>X-Shopify-Access-Token\<close> header (\<open>None\<close> when \<^verbatim>\<open>fetch\<close> is called with the URL
  alone).
\<close>

record request =
  url :: string
  token :: "string option"

text \<open>
  A reply as the code reads it: \<^verbatim>\<open>response.ok\<close>, \<^verbatim>\<open>response.statusText\<close>, the body
  (\<^verbatim>\<open>response.text()\<close>, or the \<^verbatim>\<open>response.body\<close> stream handed to the archive), the
  \<^verbatim>\<open>link\<close> header (\<open>None\<close> when \<^verbatim>\<open>headers.get('link')\<close> is \<^verbatim>\<open>null\<close>) and the outcome of
  \<^verbatim>\<open>response.json()\<close>. The parsed document is kept as the two views the code takes of it:
  \<^verbatim>\<open>data.orders\<close> (\<open>None\<close> when absent or \<^verbatim>\<open>null\<close>) and \<^verbatim>\<open>product.image.src\<close> (\<open>None\<close> when
  \<^verbatim>\<open>product\<close>, \<^verbatim>\<open>image\<close> or \<^verbatim>\<open>src\<close> is missing or \<^verbatim>\<open>null\<close>). \<open>Inl m\<close> stands for a body on
  which \<^verbatim>\<open>json()\<close>, or the property access on its result, throws an error with message
  \<open>m\<close>.

  A product identifier is a JSON number or string, \<^verbatim>\<open>null\<close>, or missing. Order numbers and
  quantities are JSON integers.
\<close>

datatype js_id = IdUndefined | IdNull | IdNum int | IdStr string

record line_item =
  product_id :: js_id
  quantity :: int

record order =
  order_number :: int
  line_items :: "line_item list"

record json_doc =
  orders :: "order list option"
  product_image_src :: "string option"

record response =
  ok :: bool
  statusText :: string
  body_text :: string
  link :: "string option"
  json :: "string + json_doc"

text \<open>
  The promise returned by \<^verbatim>\<open>fetch\<close> either rejects with an error message or resolves
  to a response. The outside world is a function from the number of requests issued
  before this one, and the request, to that outcome: the same URL may be answered
  differently at different times.
\<close>

datatype outcome = Rejected string | Resolved response

type_synonym network = "nat \<Rightarrow> request \<Rightarrow> outcome"

definition fetch :: "network \<Rightarrow> request list \<Rightarrow> request \<Rightarrow> outcome \<times> request list" where
  "fetch net reqs r = (net (length reqs) r, reqs @ [r])"

text \<open>A thrown \<^verbatim>\<open>Error\<close>; only its \<^verbatim>\<open>message\<close> is ever read.\<close>

datatype error = Error (message: string)

subsection \<open>streamZipToBlobStorage\<close>

text \<open>
  The archive is the list of entries appended so far. The blob store, the clock and the
  UUID generator belong to the platform: \<open>today\<close> is
  \<^verbatim>\<open>new Date().toISOString().split('T')[0]\<close>, \<open>blob_set\<close> is the outcome of the upload
  promise (\<open>None\<close> when it resolves) and \<open>blob_get_url\<close> the outcome of
  \<^verbatim>\<open>imagesStore.get(key, { type: 'url' })\<close>, both on the store configured with the given
  site identifier and token.
\<close>

record archive_entry =
  name :: string
  content :: string

record blob_config =
  siteID :: "string option"
  blob_token :: "string option"

record platform =
  today :: string
  uuidv4 :: string
  blob_set :: "blob_config \<Rightarrow> string \<Rightarrow> string option"
  blob_get_url :: "blob_config \<Rightarrow> string \<Rightarrow> string + string"

record zip_state =
  archive :: "archive_entry list"
  zip_requests :: "request list"

definition image_name :: "nat \<Rightarrow> string" where
  "image_name i = ''image-'' @ string_of_nat (i + 1) @ ''.jpg''"

text \<open>One iteration of the \<^verbatim>\<open>for\<close> loop (lines 75 to 82), at index \<open>i\<close>.\<close>

definition download_step :: "network \<Rightarrow> string list \<Rightarrow> nat \<Rightarrow> zip_state \<Rightarrow> zip_state" where
  "download_step net urls i st =
     (case fetch net (zip_requests st) \<lparr>url = urls ! i, token = None\<rparr> of
        (Rejected e, reqs) \<Rightarrow> st\<lparr>zip_requests := reqs\<rparr>
      | (Resolved response, reqs) \<Rightarrow>
          if ok response
          then st\<lparr>archive := archive st @ [\<lparr>name = image_name i, content = body_text response\<rparr>],
                  zip_requests := reqs\<rparr>
          else st\<lparr>zip_requests := reqs\<rparr>)"

function download_loop :: "network \<Rightarrow> string list \<Rightarrow> nat \<Rightarrow> zip_state \<Rightarrow> zip_state" where
  "download_loop net urls i st =
     (if i < length urls then download_loop net urls (i + 1) (download_step net urls i st)
      else st)"
  by pat_completeness auto
termination
  by (relation "measure (\<lambda>(net, urls, i, st). length urls - i)") auto

declare download_loop.simps [simp del]

definition streamZipToBlobStorage ::
  "platform \<Rightarrow> network \<Rightarrow> string list \<Rightarrow> blob_config \<Rightarrow> request list \<Rightarrow>
   zip_state \<times> (error + string)" where
  "streamZipToBlobStorage pf net urls blobConfig reqs =
     (let key = today pf @ ''-'' @ uuidv4 pf @ ''.zip'';
          st = download_loop net urls 0 \<lparr>archive = [], zip_requests = reqs\<rparr>
      in case blob_set pf blobConfig key of
           Some e \<Rightarrow> (st, Inl (Error e))
         | None \<Rightarrow>
             (case blob_get_url pf blobConfig key of
                Inl e \<Rightarrow> (st, Inl (Error e))
              | Inr signedUrl \<Rightarrow> (st, Inr signedUrl)))"



subsection \<open>getAllImageUrlsByQuantity\<close>

record creds =
  SHOPIFY_STORE_NAME :: string
  ADMIN_API_ACCESS_TOKEN :: string
  API_VERSION :: string

text \<open>
  \<^verbatim>\<open>!item.product_id\<close>: \<^verbatim>\<open>undefined\<close>, \<^verbatim>\<open>null\<close>, the number \<^verbatim>\<open>0\<close> and the empty string
  are falsy.
\<close>

fun truthy_id :: "js_id \<Rightarrow> bool" where
  "truthy_id IdUndefined = False"
| "truthy_id IdNull = False"
| "truthy_id (IdNum n) = (n \<noteq> 0)"
| "truthy_id (IdStr s) = (s \<noteq> [])"

text \<open>A product identifier inside the template literal of the lookup URL.\<close>

fun string_of_id :: "js_id \<Rightarrow> string" where
  "string_of_id IdUndefined = ''undefined''"
| "string_of_id IdNull = ''null''"
| "string_of_id (IdNum n) = string_of_int n"
| "string_of_id (IdStr s) = s"

definition product_request :: "creds \<Rightarrow> js_id \<Rightarrow> request" where
  "product_request creds pid =
     \<lparr>url = ''https://'' @ SHOPIFY_STORE_NAME creds @ ''.myshopify.com/admin/api/'' @
              API_VERSION creds @ ''/products/'' @ string_of_id pid @ ''.json'',
      token = Some (ADMIN_API_ACCESS_TOKEN creds)\<rparr>"

text \<open>
  The state of the two nested loops: the output list, the \<^verbatim>\<open>Map\<close> (an entry \<open>Some None\<close>
  is a cached \<^verbatim>\<open>null\<close>) and the requests issued so far.
\<close>

record resolve_state =
  finalImageUrlList :: "string list"
  productImageCache :: "js_id \<rightharpoonup> string option"
  lookups :: "request list"

text \<open>
  Lines 100 to 117: the value of \<^verbatim>\<open>imageUrl\<close> for a line item with a truthy product
  identifier, with the cache and the request list as the lookup leaves them. Every
  exception inside the \<^verbatim>\<open>try\<close> (a rejected \<^verbatim>\<open>fetch\<close>, a body that does not parse) is
  caught and logged, leaving \<^verbatim>\<open>imageUrl\<close> empty and the cache as it was.
\<close>

definition lookup_image ::
  "network \<Rightarrow> creds \<Rightarrow> resolve_state \<Rightarrow> js_id \<Rightarrow> string option \<times> resolve_state" where
  "lookup_image net creds st pid =
     (case productImageCache st pid of
        Some cached \<Rightarrow> (cached, st)
      | None \<Rightarrow>
          (case fetch net (lookups st) (product_request creds pid) of
             (Rejected e, reqs) \<Rightarrow> (Some [], st\<lparr>lookups := reqs\<rparr>)
           | (Resolved response, reqs) \<Rightarrow>
               if ok response then
                 (case json response of
                    Inl e \<Rightarrow> (Some [], st\<lparr>lookups := reqs\<rparr>)
                  | Inr doc \<Rightarrow>
                      if truthy (product_image_src doc)
                      then (product_image_src doc,
                            st\<lparr>productImageCache := (productImageCache st)(pid \<mapsto> product_image_src doc),
                               lookups := reqs\<rparr>)
                      else (Some [],
                            st\<lparr>productImageCache := (productImageCache st)(pid \<mapsto> None),
                               lookups := reqs\<rparr>))
               else (Some [], st\<lparr>lookups := reqs\<rparr>)))"

text \<open>
  The body of the inner loop (lines 99 to 122). The \<^verbatim>\<open>for\<close> loop over the quantity pushes
  the URL once for every integer \<open>i\<close> with \<open>0 \<le> i < quantity\<close>.
\<close>

definition item_step :: "network \<Rightarrow> creds \<Rightarrow> resolve_state \<Rightarrow> line_item \<Rightarrow> resolve_state" where
  "item_step net creds st item =
     (if \<not> truthy_id (product_id item) then st
      else
        (case lookup_image net creds st (product_id item) of
           (None, st') \<Rightarrow> st'
         | (Some imageUrl, st') \<Rightarrow>
             if imageUrl \<noteq> []
             then st'\<lparr>finalImageUrlList :=
                        finalImageUrlList st' @ replicate (nat (quantity item)) imageUrl\<rparr>
             else st'))"

fun items_loop :: "network \<Rightarrow> creds \<Rightarrow> resolve_state \<Rightarrow> line_item list \<Rightarrow> resolve_state" where
  "items_loop net creds st [] = st"
| "items_loop net creds st (item # items) = items_loop net creds (item_step net creds st item) items"

fun orders_loop :: "network \<Rightarrow> creds \<Rightarrow> resolve_state \<Rightarrow> order list \<Rightarrow> resolve_state" where
  "orders_loop net creds st [] = st"
| "orders_loop net creds st (order # rest) =
     orders_loop net creds (items_loop net creds st (line_items order)) rest"

definition init_state :: "request list \<Rightarrow> resolve_state" where
  "init_state reqs = \<lparr>finalImageUrlList = [], productImageCache = Map.empty, lookups = reqs\<rparr>"

definition resolve_all :: "network \<Rightarrow> creds \<Rightarrow> order list \<Rightarrow> request list \<Rightarrow> resolve_state" where
  "resolve_all net creds ords reqs = orders_loop net creds (init_state reqs) ords"

text \<open>The list the function returns, and the requests issued by the time it returns.\<close>

definition getAllImageUrlsByQuantity ::
  "network \<Rightarrow> creds \<Rightarrow> order list \<Rightarrow> request list \<Rightarrow> string list \<times> request list" where
  "getAllImageUrlsByQuantity net creds ords reqs =
     (let st = resolve_all net creds ords reqs in (finalImageUrlList st, lookups st))"

text \<open>
  Two observations on a run of the inner loop from a state \<open>st\<close>, used to state what the
  run does. \<open>resolutions\<close> lists, in the order of the run, the line items for which
  \<^verbatim>\<open>imageUrl\<close> ends up truthy, each with that URL. \<open>lookup_trace\<close> lists the product
  lookups the run issues, each as the product identifier and the outcome of its request.
\<close>

definition resolved_image :: "network \<Rightarrow> creds \<Rightarrow> resolve_state \<Rightarrow> line_item \<Rightarrow> string option" where
  "resolved_image net creds st item =
     (if truthy_id (product_id item) then
        (case fst (lookup_image net creds st (product_id item)) of
           None \<Rightarrow> None
         | Some imageUrl \<Rightarrow> if imageUrl \<noteq> [] then Some imageUrl else None)
      else None)"

fun resolutions ::
  "network \<Rightarrow> creds \<Rightarrow> resolve_state \<Rightarrow> line_item list \<Rightarrow> (line_item \<times> string) list" where
  "resolutions net creds st [] = []"
| "resolutions net creds st (item # items) =
     (case resolved_image net creds st item of
        None \<Rightarrow> []
      | Some imageUrl \<Rightarrow> [(item, imageUrl)]) @
     resolutions net creds (item_step net creds st item) items"

definition lookup_issued ::
  "network \<Rightarrow> creds \<Rightarrow> resolve_state \<Rightarrow> line_item \<Rightarrow> (js_id \<times> outcome) list" where
  "lookup_issued net creds st item =
     (if truthy_id (product_id item) \<and> productImageCache st (product_id item) = None
      then [(product_id item,
             net (length (lookups st)) (product_request creds (product_id item)))]
      else [])"

fun lookup_trace ::
  "network \<Rightarrow> creds \<Rightarrow> resolve_state \<Rightarrow> line_item list \<Rightarrow> (js_id \<times> outcome) list" where
  "lookup_trace net creds st [] = []"
| "lookup_trace net creds st (item # items) =
     lookup_issued net creds st item @ lookup_trace net creds (item_step net creds st item) items"

text \<open>
  A lookup is answered when its response has \<^verbatim>\<open>ok\<close> set and a body that parses, with or
  without an image in it; it fails when the request is rejected, the response is not
  \<^verbatim>\<open>ok\<close>, or the body does not parse.
\<close>

fun answered :: "outcome \<Rightarrow> bool" where
  "answered (Rejected e) = False"
| "answered (Resolved response) = (ok response \<and> \<not> isl (json response))"

subsection \<open>String operations of the pagination loop\<close>

text \<open>\<^verbatim>\<open>s.split(',')\<close>, \<^verbatim>\<open>s.includes(t)\<close> and \<^verbatim>\<open>s.match(/<(.*?)>/)\<close>.\<close>

fun split_comma :: "string \<Rightarrow> string list" where
  "split_comma [] = [] # []"
| "split_comma (c # cs) =
     (if c = CHR '','' then [] # split_comma cs
      else (case split_comma cs of
              [] \<Rightarrow> [c] # []
            | piece # pieces \<Rightarrow> (c # piece) # pieces))"

fun is_prefix :: "string \<Rightarrow> string \<Rightarrow> bool" where
  "is_prefix [] s = True"
| "is_prefix (c # cs) [] = False"
| "is_prefix (c # cs) (d # ds) = (c = d \<and> is_prefix cs ds)"

fun includes_str :: "string \<Rightarrow> string \<Rightarrow> bool" where
  "includes_str [] t = is_prefix t []"
| "includes_str (c # cs) t = (is_prefix t (c # cs) \<or> includes_str cs t)"

text \<open>
  The regular expression \<^verbatim>\<open><(.*?)>\<close>: at the leftmost \<^verbatim>\<open><\<close> from which a \<^verbatim>\<open>>\<close> is reached
  without crossing a line terminator, the group is the text up to the first \<^verbatim>\<open>>\<close>.
  \<open>None\<close> is the \<^verbatim>\<open>null\<close> that \<^verbatim>\<open>match\<close> returns when nothing matches. Header values
  are strings of single-byte characters, so the line terminators are line feed and
  carriage return.
\<close>

definition line_terminator :: "char \<Rightarrow> bool" where
  "line_terminator c = (c = CHR 0x0A \<or> c = CHR 0x0D)"

fun match_angle :: "string \<Rightarrow> string option" where
  "match_angle [] = None"
| "match_angle (c # cs) =
     (if c = CHR ''<'' then
        (let grp = takeWhile (\<lambda>d. d \<noteq> CHR ''>'' \<and> \<not> line_terminator d) cs
         in case drop (length grp) cs of
              [] \<Rightarrow> match_angle cs
            | d # ds \<Rightarrow> if d = CHR ''>'' then Some grp else match_angle cs)
      else match_angle cs)"

definition rel_next :: string where
  "rel_next = ''rel='' @ [CHR 0x22] @ ''next'' @ [CHR 0x22]"

text \<open>
  Lines 174 to 183: the value of \<^verbatim>\<open>nextUrl\<close> after a page. Indexing the \<^verbatim>\<open>null\<close> that
  \<^verbatim>\<open>match\<close> returns throws a \<^verbatim>\<open>TypeError\<close>.
\<close>

definition match_null_error :: error where
  "match_null_error =
     Error (''Cannot read properties of null (reading '' @ [CHR 0x27] @ ''1'' @ [CHR 0x27] @ '')'')"

definition next_url :: "string option \<Rightarrow> error + string option" where
  "next_url linkHeader =
     (case linkHeader of
        None \<Rightarrow> Inr None
      | Some header \<Rightarrow>
          if header = [] then Inr None
          else
            (case find (\<lambda>s. includes_str s rel_next) (split_comma header) of
               None \<Rightarrow> Inr None
             | Some nextLink \<Rightarrow>
                 (case match_angle nextLink of
                    None \<Rightarrow> Inl match_null_error
                  | Some u \<Rightarrow> Inr (Some u))))"

subsection \<open>getOrdersByNumberRange\<close>

definition orders_base :: "creds \<Rightarrow> string" where
  "orders_base creds =
     ''https://'' @ SHOPIFY_STORE_NAME creds @ ''.myshopify.com/admin/api/'' @
     API_VERSION creds @ ''/orders.json?''"

definition orders_request :: "creds \<Rightarrow> string \<Rightarrow> request" where
  "orders_request creds u = \<lparr>url = u, token = Some (ADMIN_API_ACCESS_TOKEN creds)\<rparr>"

text \<open>\<^verbatim>\<open>data.orders || []\<close>\<close>

definition orders_or_empty :: "json_doc \<Rightarrow> order list" where
  "orders_or_empty data = (case orders data of None \<Rightarrow> [] | Some os \<Rightarrow> os)"

text \<open>
  The state of the \<^verbatim>\<open>while\<close> loop, and what one pass through its body (lines 153 to
  183) does when \<^verbatim>\<open>nextUrl\<close> is the string \<open>u\<close>: go round again (the loop test then
  looks at the new \<^verbatim>\<open>nextUrl\<close>), leave the loop by \<^verbatim>\<open>break\<close>, or throw.
\<close>

record range_state =
  allOrders :: "order list"
  nextUrl :: "string option"
  page_requests :: "request list"

datatype loop_exit = Again range_state | Leave range_state | Throw error "request list"

definition range_body :: "network \<Rightarrow> creds \<Rightarrow> int \<Rightarrow> range_state \<Rightarrow> string \<Rightarrow> loop_exit" where
  "range_body net creds startNum st u =
     (case fetch net (page_requests st) (orders_request creds u) of
        (Rejected e, reqs) \<Rightarrow> Throw (Error e) reqs
      | (Resolved response, reqs) \<Rightarrow>
          if \<not> ok response then
            Throw (Error (''Shopify API error: '' @ statusText response @ ''. Details: '' @
                          body_text response)) reqs
          else
            (case json response of
               Inl e \<Rightarrow> Throw (Error e) reqs
             | Inr data \<Rightarrow>
                 (let ordersPage = orders_or_empty data in
                  if length ordersPage = 0 then Leave (st\<lparr>page_requests := reqs\<rparr>)
                  else
                    (let all = allOrders st @ ordersPage;
                         oldestOrderNumInPage = order_number (ordersPage ! (length ordersPage - 1))
                     in if oldestOrderNumInPage < startNum
                        then Leave (st\<lparr>allOrders := all, page_requests := reqs\<rparr>)
                        else
                          (case next_url (link response) of
                             Inl err \<Rightarrow> Throw err reqs
                           | Inr nxt \<Rightarrow>
                               Again \<lparr>allOrders = all, nextUrl = nxt, page_requests = reqs\<rparr>)))))"

text \<open>
  The loop itself. Nothing bounds the number of pages the upstream may chain together,
  so the loop is a partial function: \<open>None\<close> is a run that never leaves the loop.
\<close>

partial_function (option) range_loop ::
  "network \<Rightarrow> creds \<Rightarrow> int \<Rightarrow> range_state \<Rightarrow> ((error + order list) \<times> request list) option" where
  "range_loop net creds startNum st =
     (case nextUrl st of
        None \<Rightarrow> Some (Inr (allOrders st), page_requests st)
      | Some u \<Rightarrow>
          if u = [] then Some (Inr (allOrders st), page_requests st)
          else
            (case range_body net creds startNum st u of
               Again st' \<Rightarrow> range_loop net creds startNum st'
             | Leave st' \<Rightarrow> Some (Inr (allOrders st'), page_requests st')
             | Throw err reqs \<Rightarrow> Some (Inl err, reqs)))"

declare range_loop.simps [code]

definition in_range :: "int \<Rightarrow> int \<Rightarrow> order \<Rightarrow> bool" where
  "in_range startNum endNum order =
     (let orderNum = order_number order in orderNum \<ge> startNum \<and> orderNum \<le> endNum)"

definition first_page_url :: "creds \<Rightarrow> string" where
  "first_page_url creds = orders_base creds @ ''status=open&limit=250''"

definition getOrdersByNumberRange ::
  "network \<Rightarrow> creds \<Rightarrow> int \<Rightarrow> int \<Rightarrow> request list \<Rightarrow> ((error + order list) \<times> request list) option" where
  "getOrdersByNumberRange net creds startNum endNum reqs =
     (case range_loop net creds startNum
             \<lparr>allOrders = [], nextUrl = Some (first_page_url creds), page_requests = reqs\<rparr> of
        None \<Rightarrow> None
      | Some (Inl err, reqs') \<Rightarrow> Some (Inl err, reqs')
      | Some (Inr all, reqs') \<Rightarrow> Some (Inr (filter (in_range startNum endNum) all), reqs'))"


text \<open>
  The upstream as a chain of pages. \<open>serves net creds n chain\<close> says that from request
  number \<open>n\<close> on, the upstream answers the URL of each element of \<open>chain\<close> with a
  successful response that carries the orders of that element and whose \<^verbatim>\<open>link\<close> header
  leads to the URL of the next element; the last element has no usable next link.
\<close>

fun serves :: "network \<Rightarrow> creds \<Rightarrow> nat \<Rightarrow> (string \<times> order list) list \<Rightarrow> bool" where
  "serves net creds n [] = True"
| "serves net creds n ((u, page) # rest) =
     (u \<noteq> [] \<and>
      (case net n (orders_request creds u) of
         Rejected e \<Rightarrow> False
       | Resolved response \<Rightarrow>
           ok response \<and>
           (case json response of
              Inl e \<Rightarrow> False
            | Inr data \<Rightarrow>
                orders_or_empty data = page \<and>
                (case next_url (link response) of
                   Inl err \<Rightarrow> False
                 | Inr nxt \<Rightarrow>
                     (case rest of
                        [] \<Rightarrow> \<not> truthy nxt
                      | (u', page') # rest' \<Rightarrow> nxt = Some u') \<and>
                     serves net creds (Suc n) rest))))"

text \<open>
  The pages a traversal visits when it stops after the first page that is empty or whose
  last order has a number below \<open>startNum\<close>.
\<close>

fun visited :: "int \<Rightarrow> (string \<times> order list) list \<Rightarrow> (string \<times> order list) list" where
  "visited startNum [] = []"
| "visited startNum ((u, page) # rest) =
     (if page = [] \<or> order_number (last page) < startNum then [(u, page)]
      else (u, page) # visited startNum rest)"

definition descending :: "order list \<Rightarrow> bool" where
  "descending os = sorted_wrt (\<lambda>a b. order_number a \<ge> order_number b) os"

text \<open>No page with orders comes after an empty page.\<close>

fun empty_pages_last :: "order list list \<Rightarrow> bool" where
  "empty_pages_last [] = True"
| "empty_pages_last (page # pages) =
     ((if page = [] then concat pages = [] else True) \<and> empty_pages_last pages)"

text \<open>
  What a run that started with the requests \<open>reqs\<close> and ended with the pair \<open>y\<close> of result
  and requests did about failures: any request of the run that was answered with a
  response that is not \<^verbatim>\<open>ok\<close> was the last one, and the result is the error made from
  that response.
\<close>

definition aborts_at :: "network \<Rightarrow> request list \<Rightarrow> (error + order list) \<times> request list \<Rightarrow> bool" where
  "aborts_at net reqs y =
     (\<exists>new. snd y = reqs @ new \<and>
        (\<forall>k<length new. \<forall>r. net (length reqs + k) (new ! k) = Resolved r \<longrightarrow> \<not> ok r \<longrightarrow>
           fst y = Inl (Error (''Shopify API error: '' @ statusText r @ ''. Details: '' @ body_text r))
           \<and> Suc k = length new))"

subsection \<open>getOrdersByDate\<close>

text \<open>
  A \<^verbatim>\<open>Date\<close> object is its time value, the milliseconds since the epoch, or \<open>None\<close> for
  an invalid date. The argument \<open>date\<close> of \<open>getOrdersByDate\<close> is the time value of
  \<^verbatim>\<open>new Date(date)\<close>. Time values lie within 8.64e15 milliseconds of the epoch; a setter
  that leaves this range makes the date invalid.
\<close>

definition msPerDay :: int where
  "msPerDay = 86400000"

definition time_clip :: "int \<Rightarrow> int option" where
  "time_clip t = (if \<bar>t\<bar> \<le> 8640000000000000 then Some t else None)"

definition setUTCHours :: "int option \<Rightarrow> int \<Rightarrow> int \<Rightarrow> int \<Rightarrow> int \<Rightarrow> int option" where
  "setUTCHours d h m s ms =
     (case d of
        None \<Rightarrow> None
      | Some t \<Rightarrow> time_clip ((t div msPerDay) * msPerDay + (h * 3600000 + m * 60000 + s * 1000 + ms)))"

text \<open>The calendar date of a day number (days since 1970-01-01), proleptic Gregorian.\<close>

definition civil_from_days :: "int \<Rightarrow> int \<times> nat \<times> nat" where
  "civil_from_days z0 =
     (let z = z0 + 719468;
          era = z div 146097;
          doe = z - era * 146097;
          yoe = (doe - doe div 1460 + doe div 36524 - doe div 146096) div 365;
          doy = doe - (365 * yoe + yoe div 4 - yoe div 100);
          mp = (5 * doy + 2) div 153;
          d = doy - (153 * mp + 2) div 5 + 1;
          m = (if mp < 10 then mp + 3 else mp - 9);
          y = yoe + era * 400 + (if m \<le> 2 then 1 else 0)
      in (y, nat m, nat d))"

definition pad :: "nat \<Rightarrow> nat \<Rightarrow> string" where
  "pad w n = replicate (w - length (string_of_nat n)) CHR ''0'' @ string_of_nat n"

definition iso_year :: "int \<Rightarrow> string" where
  "iso_year y =
     (if 0 \<le> y \<and> y \<le> 9999 then pad 4 (nat y)
      else (if y < 0 then ''-'' else ''+'') @ pad 6 (nat \<bar>y\<bar>))"

definition iso_date :: "int \<Rightarrow> string" where
  "iso_date day =
     (case civil_from_days day of
        (y, m, d) \<Rightarrow> iso_year y @ ''-'' @ pad 2 m @ ''-'' @ pad 2 d)"

definition iso_time :: "int \<Rightarrow> string" where
  "iso_time ms =
     pad 2 (nat (ms div 3600000)) @ '':'' @ pad 2 (nat (ms div 60000 mod 60)) @ '':'' @
     pad 2 (nat (ms div 1000 mod 60)) @ ''.'' @ pad 3 (nat (ms mod 1000))"

definition toISOString :: "int option \<Rightarrow> error + string" where
  "toISOString d =
     (case d of
        None \<Rightarrow> Inl (Error ''Invalid time value'')
      | Some t \<Rightarrow> Inr (iso_date (t div msPerDay) @ ''T'' @ iso_time (t mod msPerDay) @ ''Z''))"

text \<open>
  \<^verbatim>\<open>new URLSearchParams({...}).toString()\<close>: names and values are form-urlencoded and
  joined with \<^verbatim>\<open>=\<close> and \<^verbatim>\<open>&\<close>.
\<close>

definition hex_digit :: "nat \<Rightarrow> char" where
  "hex_digit d = ''0123456789ABCDEF'' ! d"

definition unreserved :: "char \<Rightarrow> bool" where
  "unreserved c =
     (let n = (of_char c :: nat)
      in (48 \<le> n \<and> n \<le> 57) \<or> (65 \<le> n \<and> n \<le> 90) \<or> (97 \<le> n \<and> n \<le> 122) \<or>
         c = CHR ''*'' \<or> c = CHR ''-'' \<or> c = CHR ''.'' \<or> c = CHR ''_'')"

definition encode_char :: "char \<Rightarrow> string" where
  "encode_char c =
     (if unreserved c then [c]
      else if c = CHR '' '' then ''+''
      else [CHR ''%'', hex_digit (of_char c div 16), hex_digit (of_char c mod 16)])"

definition urlencode :: "string \<Rightarrow> string" where
  "urlencode s = concat (map encode_char s)"

fun url_search_params :: "(string \<times> string) list \<Rightarrow> string" where
  "url_search_params [] = []"
| "url_search_params [(k, v)] = urlencode k @ ''='' @ urlencode v"
| "url_search_params ((k, v) # kv # kvs) =
     urlencode k @ ''='' @ urlencode v @ ''&'' @ url_search_params (kv # kvs)"

definition getOrdersByDate ::
  "network \<Rightarrow> creds \<Rightarrow> int option \<Rightarrow> request list \<Rightarrow> (error + order list) \<times> request list" where
  "getOrdersByDate net creds date reqs =
     (let startDate = setUTCHours date 0 0 0 0;
          endDate = setUTCHours date 23 59 59 999
      in case toISOString startDate of
           Inl err \<Rightarrow> (Inl err, reqs)
         | Inr created_at_min \<Rightarrow>
             (case toISOString endDate of
                Inl err \<Rightarrow> (Inl err, reqs)
              | Inr created_at_max \<Rightarrow>
                  (let params = url_search_params
                         [(''status'', ''open''), (''created_at_min'', created_at_min),
                          (''created_at_max'', created_at_max), (''limit'', ''250'')]
                   in case fetch net reqs (orders_request creds (orders_base creds @ params)) of
                        (Rejected e, reqs') \<Rightarrow> (Inl (Error e), reqs')
                      | (Resolved response, reqs') \<Rightarrow>
                          if \<not> ok response
                          then (Inl (Error (''Shopify API error: '' @ statusText response)), reqs')
                          else
                            (case json response of
                               Inl e \<Rightarrow> (Inl (Error e), reqs')
                             | Inr data \<Rightarrow> (Inr (orders_or_empty data), reqs')))))"

text \<open>
  The request the date mode is expected to issue for a day number: the open orders created
  from 00:00:00.000 to 23:59:59.999 UTC of that day, 250 to the page.
\<close>

definition date_query :: "int \<Rightarrow> string" where
  "date_query day =
     ''status=open&created_at_min='' @ urlencode (iso_date day) @ ''T00%3A00%3A00.000Z'' @
     ''&created_at_max='' @ urlencode (iso_date day) @ ''T23%3A59%3A59.999Z'' @ ''&limit=250''"

definition date_request :: "creds \<Rightarrow> int \<Rightarrow> request" where
  "date_request creds t = orders_request creds (orders_base creds @ date_query (t div msPerDay))"

subsection \<open>The handler\<close>

text \<open>
  The event carries the HTTP method and the outcome of \<^verbatim>\<open>JSON.parse(event.body)\<close>
  (\<open>Inl m\<close> when parsing, or reading a property of the parsed value, throws). The parsed
  body is read through \<^verbatim>\<open>type\<close>, \<^verbatim>\<open>date\<close> (kept as the time value of
  \<^verbatim>\<open>new Date(body.date)\<close>), \<^verbatim>\<open>start\<close> and \<^verbatim>\<open>end\<close>. The response body is kept as the
  object given to \<^verbatim>\<open>JSON.stringify\<close>: a message and, on one path only, a download URL.
\<close>

record request_body =
  body_type :: string
  body_date :: "int option"
  body_start :: int
  body_end :: int

record event =
  httpMethod :: string
  event_body :: "string + request_body"

record environment =
  env_SHOPIFY_STORE_NAME :: "string option"
  env_ADMIN_API_ACCESS_TOKEN :: "string option"
  env_API_VERSION :: "string option"
  env_NETLIFY_SITE_ID :: "string option"
  env_NETLIFY_API_TOKEN :: "string option"

record http_response =
  statusCode :: nat
  content_type :: "string option"
  message_field :: string
  downloadUrl :: "string option"

text \<open>
  What one invocation leaves behind: the response, the requests issued, and the archive
  when the archive streamer ran (\<open>None\<close> when it was never called).
\<close>

record invocation =
  http :: http_response
  issued :: "request list"
  streamed :: "archive_entry list option"

definition reply :: "nat \<Rightarrow> string \<Rightarrow> request list \<Rightarrow> invocation" where
  "reply code msg reqs =
     \<lparr>http = \<lparr>statusCode = code, content_type = None, message_field = msg, downloadUrl = None\<rparr>,
      issued = reqs, streamed = None\<rparr>"

definition internal_error :: "error \<Rightarrow> string" where
  "internal_error err = ''An internal error occurred: '' @ message err"

text \<open>Lines 31 to 51, once the orders are there.\<close>

definition handle_orders ::
  "platform \<Rightarrow> network \<Rightarrow> creds \<Rightarrow> blob_config \<Rightarrow> order list \<Rightarrow> request list \<Rightarrow> invocation" where
  "handle_orders pf net credentials blobConfig ords reqs =
     (if length ords = 0
      then reply 200 ''No unfulfilled orders found for the selected criteria.'' reqs
      else
        (case getAllImageUrlsByQuantity net credentials ords reqs of
           (imageUrls, reqs') \<Rightarrow>
             if length imageUrls = 0
             then reply 200 ''No product images found in these unfulfilled orders.'' reqs'
             else
               (case streamZipToBlobStorage pf net imageUrls blobConfig reqs' of
                  (zst, Inl err) \<Rightarrow>
                    (reply 500 (internal_error err) (zip_requests zst))\<lparr>streamed := Some (archive zst)\<rparr>
                | (zst, Inr signedUrl) \<Rightarrow>
                    \<lparr>http = \<lparr>statusCode = 200, content_type = Some ''application/json'',
                             message_field = ''Successfully bundled '' @
                               string_of_nat (length imageUrls) @
                               '' images. Your download is ready.'',
                             downloadUrl = Some signedUrl\<rparr>,
                     issued = zip_requests zst, streamed = Some (archive zst)\<rparr>)))"

definition after_fetch ::
  "platform \<Rightarrow> network \<Rightarrow> creds \<Rightarrow> blob_config \<Rightarrow> (error + order list) \<times> request list \<Rightarrow>
   invocation" where
  "after_fetch pf net credentials blobConfig fetched =
     (case fetched of
        (Inl err, reqs) \<Rightarrow> reply 500 (internal_error err) reqs
      | (Inr ords, reqs) \<Rightarrow> handle_orders pf net credentials blobConfig ords reqs)"

definition credentials :: "environment \<Rightarrow> creds" where
  "credentials env =
     \<lparr>SHOPIFY_STORE_NAME = the (env_SHOPIFY_STORE_NAME env),
      ADMIN_API_ACCESS_TOKEN = the (env_ADMIN_API_ACCESS_TOKEN env),
      API_VERSION = (case env_API_VERSION env of None \<Rightarrow> ''2024-04'' | Some v \<Rightarrow> v)\<rparr>"

definition blob_credentials :: "environment \<Rightarrow> blob_config" where
  "blob_credentials env =
     \<lparr>siteID = env_NETLIFY_SITE_ID env, blob_token = env_NETLIFY_API_TOKEN env\<rparr>"

definition handler :: "platform \<Rightarrow> network \<Rightarrow> environment \<Rightarrow> event \<Rightarrow> invocation option" where
  "handler pf net env ev =
     (if httpMethod ev \<noteq> ''POST'' then Some (reply 405 ''Method Not Allowed'' [])
      else if \<not> truthy (env_SHOPIFY_STORE_NAME env) \<or> \<not> truthy (env_ADMIN_API_ACCESS_TOKEN env)
      then Some (reply 500 ''Server configuration error.'' [])
      else
        (case event_body ev of
           Inl e \<Rightarrow> Some (reply 500 (internal_error (Error e)) [])
         | Inr body \<Rightarrow>
             if body_type body = ''date''
             then Some (after_fetch pf net (credentials env) (blob_credentials env)
                          (getOrdersByDate net (credentials env) (body_date body) []))
             else if body_type body = ''order_range''
             then map_option (after_fetch pf net (credentials env) (blob_credentials env))
                    (getOrdersByNumberRange net (credentials env) (body_start body) (body_end body) [])
             else Some (reply 400 ''Invalid request type.'' [])))"

subsection \<open>A sample shop\<close>

text \<open>
  A concrete world on which the definitions are run: a shop whose product 7 has an image,
  whose product 8 has none, and whose lookup of product 9 is answered
  \<^verbatim>\<open>503 Service Unavailable\<close>. The image downloads, one image is gone and one host
  cannot be reached. Its open orders 200, 150, 110, 90 and 50 come in three
  pages; the orders created on 2024-05-01 come in one page that has a next link.
\<close>

definition shop :: creds where
  "shop = \<lparr>SHOPIFY_STORE_NAME = ''demo'', ADMIN_API_ACCESS_TOKEN = ''secret'', API_VERSION = ''2024-04''\<rparr>"

definition unavailable :: response where
  "unavailable = \<lparr>ok = False, statusText = ''Service Unavailable'', body_text = ''try later'',
                   link = None, json = Inl ''Unexpected token''\<rparr>"

definition down_net :: network where
  "down_net n r = Resolved unavailable"

definition item7 :: line_item where
  "item7 = \<lparr>product_id = IdNum 7, quantity = 2\<rparr>"

definition json_response :: "json_doc \<Rightarrow> string option \<Rightarrow> response" where
  "json_response doc lnk = \<lparr>ok = True, statusText = ''OK'', body_text = [], link = lnk, json = Inr doc\<rparr>"

definition jpeg7 :: response where
  "jpeg7 = \<lparr>ok = True, statusText = ''OK'', body_text = ''JFIF-7'', link = None,
             json = Inl ''Unexpected token''\<rparr>"

definition not_found :: response where
  "not_found = \<lparr>ok = False, statusText = ''Not Found'', body_text = [], link = None,
                 json = Inl ''Unexpected end of JSON input''\<rparr>"

definition catalog_net :: network where
  "catalog_net n r =
     (if url r = url (product_request shop (IdNum 7))
      then Resolved (json_response \<lparr>orders = None, product_image_src = Some ''https://cdn.example/7.jpg''\<rparr> None)
      else if url r = url (product_request shop (IdNum 9))
      then Resolved unavailable
      else if url r = ''https://cdn.example/7.jpg''
      then Resolved jpeg7
      else if url r = ''https://cdn.example/gone.jpg''
      then Resolved not_found
      else if url r = ''https://offline.example/x.jpg''
      then Rejected ''getaddrinfo ENOTFOUND offline.example''
      else Resolved (json_response \<lparr>orders = None, product_image_src = None\<rparr> None))"

definition item8 :: line_item where
  "item8 = \<lparr>product_id = IdNum 8, quantity = 1\<rparr>"

definition item9 :: line_item where
  "item9 = \<lparr>product_id = IdNum 9, quantity = 4\<rparr>"

definition item0 :: line_item where
  "item0 = \<lparr>product_id = IdNum 0, quantity = 5\<rparr>"

definition demo_orders :: "order list" where
  "demo_orders = [\<lparr>order_number = 1001, line_items = [item7]\<rparr>,
                  \<lparr>order_number = 1002, line_items = [item8, item9, item0, item7]\<rparr>]"

definition page2_url :: string where
  "page2_url = orders_base shop @ ''limit=250&page_info=p2''"

definition page3_url :: string where
  "page3_url = orders_base shop @ ''limit=250&page_info=p3''"

definition day_url :: string where
  "day_url = orders_base shop @
     ''status=open&created_at_min=2024-05-01T00%3A00%3A00.000Z'' @
     ''&created_at_max=2024-05-01T23%3A59%3A59.999Z&limit=250''"

definition rel_previous :: string where
  "rel_previous = ''rel='' @ [CHR 0x22] @ ''previous'' @ [CHR 0x22]"

definition o200 :: order where
  "o200 = \<lparr>order_number = 200, line_items = [item8]\<rparr>"

definition o150 :: order where
  "o150 = \<lparr>order_number = 150, line_items = [item0]\<rparr>"

definition o110 :: order where
  "o110 = \<lparr>order_number = 110, line_items = [item8]\<rparr>"

definition o90 :: order where
  "o90 = \<lparr>order_number = 90, line_items = [item7]\<rparr>"

definition o50 :: order where
  "o50 = \<lparr>order_number = 50, line_items = []\<rparr>"

definition orders_page :: "order list \<Rightarrow> string option \<Rightarrow> response" where
  "orders_page os lnk = json_response \<lparr>orders = Some os, product_image_src = None\<rparr> lnk"

definition shop_net :: network where
  "shop_net n r =
     (if url r = first_page_url shop
      then Resolved (orders_page [o200, o150] (Some (''<'' @ page2_url @ ''>; '' @ rel_next)))
      else if url r = page2_url
      then Resolved (orders_page [o110, o90]
             (Some (''<'' @ first_page_url shop @ ''>; '' @ rel_previous @
                    '', <'' @ page3_url @ ''>; '' @ rel_next)))
      else if url r = page3_url
      then Resolved (orders_page [o50] (Some (''<'' @ page2_url @ ''>; '' @ rel_previous)))
      else if url r = day_url
      then Resolved (orders_page [o90, o110] (Some (''<'' @ page2_url @ ''>; '' @ rel_next)))
      else catalog_net n r)"

definition shop_chain :: "(string \<times> order list) list" where
  "shop_chain =
     [(first_page_url shop, [o200, o150]), (page2_url, [o110, o90]), (page3_url, [o50])]"

text \<open>The same shop when its first page comes back empty but still links to the second.\<close>

definition gap_net :: network where
  "gap_net n r =
     (if url r = first_page_url shop
      then Resolved (orders_page [] (Some (''<'' @ page2_url @ ''>; '' @ rel_next)))
      else shop_net n r)"

definition gap_chain :: "(string \<times> order list) list" where
  "gap_chain = [(first_page_url shop, []), (page2_url, [o110, o90]), (page3_url, [o50])]"

text \<open>The same shop when the second page is answered \<^verbatim>\<open>429 Too Many Requests\<close>.\<close>

definition too_many :: response where
  "too_many = \<lparr>ok = False, statusText = ''Too Many Requests'', body_text = ''slow down'',
                link = None, json = Inl ''Unexpected token''\<rparr>"

definition busy_net :: network where
  "busy_net n r = (if url r = page2_url then Resolved too_many else shop_net n r)"

definition sample_platform :: platform where
  "sample_platform =
     \<lparr>today = ''2024-05-01'', uuidv4 = ''9b2f6c1e-0d4a-4c57-8f3e-5a1b7c9d2e40'',
      blob_set = (\<lambda>cfg key. None),
      blob_get_url = (\<lambda>cfg key. Inr (''https://blobs.example/'' @ key))\<rparr>"

definition sample_env :: environment where
  "sample_env =
     \<lparr>env_SHOPIFY_STORE_NAME = Some ''demo'', env_ADMIN_API_ACCESS_TOKEN = Some ''secret'',
      env_API_VERSION = None, env_NETLIFY_SITE_ID = Some ''site'',
      env_NETLIFY_API_TOKEN = Some ''blob-secret''\<rparr>"

definition range_event :: "int \<Rightarrow> int \<Rightarrow> event" where
  "range_event s e =
     \<lparr>httpMethod = ''POST'',
      event_body = Inr \<lparr>body_type = ''order_range'', body_date = None, body_start = s, body_end = e\<rparr>\<rparr>"

definition date_event :: "int option \<Rightarrow> event" where
  "date_event d =
     \<lparr>httpMethod = ''POST'',
      event_body = Inr \<lparr>body_type = ''date'', body_date = d, body_start = 0, body_end = 0\<rparr>\<rparr>"


section \<open>Properties\<close>

subsection \<open>Decimal numerals\<close>





subsection \<open>The archive streamer\<close>







subsection \<open>Image resolution\<close>

text \<open>The two nested loops are one loop over the line items of all orders, in order.\<close>

lemma items_loop_append:
  "items_loop net creds st (xs @ ys) = items_loop net creds (items_loop net creds st xs) ys"
  by (induction xs arbitrary: st) simp_all

lemma orders_loop_flat:
  "orders_loop net creds st ords = items_loop net creds st (concat (map line_items ords))"
  by (induction ords arbitrary: st) (simp_all add: items_loop_append)

lemma resolve_all_flat:
  "resolve_all net creds ords reqs =
     items_loop net creds (init_state reqs) (concat (map line_items ords))"
  by (simp add: resolve_all_def orders_loop_flat)

lemma lookup_image_cached:
  "productImageCache st pid = Some v \<Longrightarrow> lookup_image net creds st pid = (v, st)"
  by (simp add: lookup_image_def)

lemma lookup_image_final:
  "finalImageUrlList (snd (lookup_image net creds st pid)) = finalImageUrlList st"
  by (simp add: lookup_image_def fetch_def split: option.splits outcome.splits sum.splits)




lemma lookup_image_failed:
  "productImageCache st pid = None \<Longrightarrow>
   \<not> answered (net (length (lookups st)) (product_request creds pid)) \<Longrightarrow>
   lookup_image net creds st pid = (Some [], st\<lparr>lookups := lookups st @ [product_request creds pid]\<rparr>)"
  by (auto simp add: lookup_image_def fetch_def split: option.splits outcome.splits sum.splits)

lemma item_step_final:
  "finalImageUrlList (item_step net creds st item) =
     finalImageUrlList st @
     (case resolved_image net creds st item of
        None \<Rightarrow> []
      | Some imageUrl \<Rightarrow> replicate (nat (quantity item)) imageUrl)"
  by (cases "lookup_image net creds st (product_id item)")
     (use lookup_image_final [of net creds st "product_id item"] in
       \<open>auto simp add: item_step_def resolved_image_def split: option.splits\<close>)




lemma items_loop_final:
  "finalImageUrlList (items_loop net creds st items) =
     finalImageUrlList st @
     concat (map (\<lambda>(item, imageUrl). replicate (nat (quantity item)) imageUrl)
                 (resolutions net creds st items))"
  by (induction items arbitrary: st) (auto simp add: item_step_final split: option.splits)




lemma resolutions_subseq:
  "subseq (map fst (resolutions net creds st items)) items"
  by (induction items arbitrary: st) (auto split: option.splits)

lemma length_expansion:
  "\<forall>e \<in> set R. 0 \<le> quantity (fst e) \<Longrightarrow>
   int (length (concat (map (\<lambda>(item, imageUrl). replicate (nat (quantity item)) imageUrl) R))) =
     sum_list (map (\<lambda>(item, imageUrl). quantity item) R)"
  by (induction R) auto


text \<open>Running the resolver on the sample shop.\<close>

lemma replicate_num: "replicate (numeral k) x = x # replicate (pred_numeral k) x"
  by (simp add: numeral_eq_Suc)

lemmas resolver_eval = replicate_num
  getAllImageUrlsByQuantity_def resolve_all_def init_state_def item_step_def
  lookup_image_def fetch_def Let_def product_request_def string_of_int_def
  string_of_nat.simps digit_char_def truthy_def
  shop_def unavailable_def down_net_def catalog_net_def json_response_def
  item7_def item8_def item9_def item0_def demo_orders_def

lemma demo_run:
  "getAllImageUrlsByQuantity catalog_net shop demo_orders [] =
     ([''https://cdn.example/7.jpg'', ''https://cdn.example/7.jpg'',
       ''https://cdn.example/7.jpg'', ''https://cdn.example/7.jpg''],
      [product_request shop (IdNum 7), product_request shop (IdNum 8),
       product_request shop (IdNum 9)])"
  by (simp add: resolver_eval)

lemma demo_trace:
  "lookup_trace catalog_net shop (init_state []) (concat (map line_items demo_orders)) =
     [(IdNum 7, Resolved (json_response \<lparr>orders = None, product_image_src = Some ''https://cdn.example/7.jpg''\<rparr> None)),
      (IdNum 8, Resolved (json_response \<lparr>orders = None, product_image_src = None\<rparr> None)),
      (IdNum 9, Resolved unavailable)]"
  by (simp add: resolver_eval lookup_issued_def)

lemma demo_resolutions:
  "resolutions catalog_net shop (init_state []) (concat (map line_items demo_orders)) =
     [(item7, ''https://cdn.example/7.jpg''), (item7, ''https://cdn.example/7.jpg'')]"
  by (simp add: resolver_eval resolved_image_def)





text \<open>
  C5. The list returned is the concatenation, over the line items that resolved to a
  non-empty image URL and in the order in which the orders and their line items are
  iterated, of that URL repeated \<^verbatim>\<open>quantity\<close> times; with no negative quantity, its
  length is the sum of those quantities.
\<close>

theorem image_urls_expand_quantities:
  "fst (getAllImageUrlsByQuantity net creds ords reqs) =
     concat (map (\<lambda>(item, imageUrl). replicate (nat (quantity item)) imageUrl)
                 (resolutions net creds (init_state reqs) (concat (map line_items ords))))
   \<and> subseq (map fst (resolutions net creds (init_state reqs) (concat (map line_items ords))))
             (concat (map line_items ords))
   \<and> ((\<forall>item \<in> set (concat (map line_items ords)). 0 \<le> quantity item) \<longrightarrow>
        int (length (fst (getAllImageUrlsByQuantity net creds ords reqs))) =
          sum_list (map (\<lambda>(item, imageUrl). quantity item)
                        (resolutions net creds (init_state reqs) (concat (map line_items ords)))))"
proof -
  let ?items = "concat (map line_items ords)"
  let ?R = "resolutions net creds (init_state reqs) ?items"
  have out: "fst (getAllImageUrlsByQuantity net creds ords reqs) =
      concat (map (\<lambda>(item, imageUrl). replicate (nat (quantity item)) imageUrl) ?R)"
    by (simp add: getAllImageUrlsByQuantity_def Let_def resolve_all_flat items_loop_final init_state_def)
  have sub: "subseq (map fst ?R) ?items"
    by (rule resolutions_subseq)
  have len: "int (length (fst (getAllImageUrlsByQuantity net creds ords reqs))) =
      sum_list (map (\<lambda>(item, imageUrl). quantity item) ?R)"
    if nonneg: "\<forall>item \<in> set ?items. 0 \<le> quantity item"
  proof -
    have mem: "\<forall>e \<in> set ?R. 0 \<le> quantity (fst e)"
    proof
      fix e assume "e \<in> set ?R"
      then have "fst e \<in> set (map fst ?R)" by simp
      with sub obtain y where "y \<in> set ?items" and "fst e = y" by (rule list_emb_set)
      then have "fst e \<in> set ?items" by simp
      with nonneg show "0 \<le> quantity (fst e)" by blast
    qed
    have "int (length (concat (map (\<lambda>(item, imageUrl). replicate (nat (quantity item)) imageUrl) ?R))) =
          sum_list (map (\<lambda>(item, imageUrl). quantity item) ?R)"
      by (rule length_expansion [OF mem])
    then show ?thesis by (simp only: out)
  qed
  from out sub len show ?thesis by blast
qed

theorem image_urls_expand_quantities_witness:
  "list_all (\<lambda>item. 0 \<le> quantity item) (concat (map line_items demo_orders))
   \<and> fst (getAllImageUrlsByQuantity catalog_net shop demo_orders []) =
       replicate 2 ''https://cdn.example/7.jpg'' @ replicate 2 ''https://cdn.example/7.jpg''
   \<and> int (length (fst (getAllImageUrlsByQuantity catalog_net shop demo_orders []))) = 2 + 2"
proof -
  have nonneg: "\<forall>item \<in> set (concat (map line_items demo_orders)). 0 \<le> quantity item"
    by (simp add: demo_orders_def item7_def item8_def item9_def item0_def)
  have res: "resolutions catalog_net shop (init_state []) (concat (map line_items demo_orders)) =
      [(item7, ''https://cdn.example/7.jpg''), (item7, ''https://cdn.example/7.jpg'')]"
    by (simp add: resolver_eval resolved_image_def)
  from image_urls_expand_quantities [of catalog_net shop demo_orders "[]"] nonneg show ?thesis
    by (simp add: res item7_def list_all_iff)
qed

text \<open>
  C9. The function has no failing path: a rejected request, a response that is not
  \<^verbatim>\<open>ok\<close> and a body that does not parse are all absorbed inside the loop body. When the
  lookup of a line item fails, the state after that item is the state before it with one
  more request issued (the output list and the cache are untouched), the remaining line
  items are processed from there, and the list returned is what had been produced before
  the item followed by what the remaining items produce.
\<close>

theorem failed_lookup_not_fatal:
  assumes "concat (map line_items ords) = before @ item # after"
      and "st = items_loop net creds (init_state reqs) before"
      and "truthy_id (product_id item)"
      and "productImageCache st (product_id item) = None"
      and "\<not> answered (net (length (lookups st)) (product_request creds (product_id item)))"
  shows "item_step net creds st item =
           st\<lparr>lookups := lookups st @ [product_request creds (product_id item)]\<rparr>
         \<and> resolve_all net creds ords reqs =
             items_loop net creds
               (st\<lparr>lookups := lookups st @ [product_request creds (product_id item)]\<rparr>) after
         \<and> fst (getAllImageUrlsByQuantity net creds ords reqs) =
             finalImageUrlList st @
             concat (map (\<lambda>(item, imageUrl). replicate (nat (quantity item)) imageUrl)
                     (resolutions net creds
                        (st\<lparr>lookups := lookups st @ [product_request creds (product_id item)]\<rparr>) after))"
proof -
  let ?st' = "st\<lparr>lookups := lookups st @ [product_request creds (product_id item)]\<rparr>"
  have step: "item_step net creds st item = ?st'"
    using assms(3,4,5) lookup_image_failed [of st "product_id item" net creds]
    by (simp add: item_step_def)
  have run: "resolve_all net creds ords reqs = items_loop net creds ?st' after"
    using assms(1,2) step by (simp add: resolve_all_flat items_loop_append)
  have "fst (getAllImageUrlsByQuantity net creds ords reqs) =
          finalImageUrlList (items_loop net creds ?st' after)"
    using run by (simp add: getAllImageUrlsByQuantity_def Let_def)
  then have out: "fst (getAllImageUrlsByQuantity net creds ords reqs) =
      finalImageUrlList st @
      concat (map (\<lambda>(item, imageUrl). replicate (nat (quantity item)) imageUrl)
                  (resolutions net creds ?st' after))"
    by (simp add: items_loop_final)
  from step run out show ?thesis by blast
qed

theorem failed_lookup_not_fatal_witness:
  "concat (map line_items demo_orders) = [item7, item8] @ item9 # [item0, item7]
   \<and> truthy_id (product_id item9)
   \<and> productImageCache (items_loop catalog_net shop (init_state []) [item7, item8]) (product_id item9) = None
   \<and> \<not> answered (catalog_net (length (lookups (items_loop catalog_net shop (init_state []) [item7, item8])))
                      (product_request shop (product_id item9)))
   \<and> resolve_all catalog_net shop demo_orders [] =
       items_loop catalog_net shop
         ((items_loop catalog_net shop (init_state []) [item7, item8])
            \<lparr>lookups := lookups (items_loop catalog_net shop (init_state []) [item7, item8]) @
                          [product_request shop (product_id item9)]\<rparr>)
         [item0, item7]
   \<and> fst (getAllImageUrlsByQuantity catalog_net shop demo_orders []) =
       replicate 2 ''https://cdn.example/7.jpg'' @ replicate 2 ''https://cdn.example/7.jpg''"
proof -
  let ?st = "items_loop catalog_net shop (init_state []) [item7, item8]"
  have flat: "concat (map line_items demo_orders) = [item7, item8] @ item9 # [item0, item7]"
    by (simp add: demo_orders_def)
  have tr: "truthy_id (product_id item9)"
    by (simp add: item9_def)
  have miss: "productImageCache ?st (product_id item9) = None"
    by (simp add: resolver_eval)
  have fail: "\<not> answered (catalog_net (length (lookups ?st)) (product_request shop (product_id item9)))"
    by (simp add: resolver_eval)
  have out: "fst (getAllImageUrlsByQuantity catalog_net shop demo_orders []) =
       replicate 2 ''https://cdn.example/7.jpg'' @ replicate 2 ''https://cdn.example/7.jpg''"
    by (simp add: resolver_eval)
  from failed_lookup_not_fatal [OF flat refl tr miss fail] flat tr miss fail out
  show ?thesis by simp
qed

text \<open>
  C10. A line item whose product identifier is \<^verbatim>\<open>undefined\<close>, \<^verbatim>\<open>null\<close>, the number 0 or
  the empty string leaves the state as it is: no lookup is issued, no cache entry is
  written and nothing is appended; the list returned and the requests issued are those of
  the same orders without that line item.
\<close>

theorem falsy_product_id_skipped:
  assumes "product_id item \<in> {IdUndefined, IdNull, IdNum 0, IdStr []}"
  shows "item_step net creds st item = st
         \<and> lookup_issued net creds st item = []
         \<and> resolved_image net creds st item = None
         \<and> (concat (map line_items ords) = before @ item # after \<longrightarrow>
              concat (map line_items ords') = before @ after \<longrightarrow>
              getAllImageUrlsByQuantity net creds ords reqs =
              getAllImageUrlsByQuantity net creds ords' reqs)"
proof -
  have falsy: "\<not> truthy_id (product_id item)"
    using assms by auto
  then have step: "\<And>st. item_step net creds st item = st"
    by (simp add: item_step_def)
  have "resolve_all net creds ords reqs = resolve_all net creds ords' reqs"
    if "concat (map line_items ords) = before @ item # after"
      and "concat (map line_items ords') = before @ after"
    using that step by (simp add: resolve_all_flat items_loop_append)
  then show ?thesis
    using falsy step by (simp add: lookup_issued_def resolved_image_def getAllImageUrlsByQuantity_def)
qed

theorem falsy_product_id_skipped_witness:
  "product_id item0 \<in> {IdUndefined, IdNull, IdNum 0, IdStr []}
   \<and> concat (map line_items demo_orders) = [item7, item8, item9] @ item0 # [item7]
   \<and> concat (map line_items [\<lparr>order_number = 1001, line_items = [item7]\<rparr>,
                               \<lparr>order_number = 1002, line_items = [item8, item9, item7]\<rparr>]) =
       [item7, item8, item9] @ [item7]
   \<and> item_step catalog_net shop (init_state []) item0 = init_state []
   \<and> getAllImageUrlsByQuantity catalog_net shop demo_orders [] =
       getAllImageUrlsByQuantity catalog_net shop
         [\<lparr>order_number = 1001, line_items = [item7]\<rparr>,
          \<lparr>order_number = 1002, line_items = [item8, item9, item7]\<rparr>] []"
proof -
  have falsy: "product_id item0 \<in> {IdUndefined, IdNull, IdNum 0, IdStr []}"
    by (simp add: item0_def)
  have flat: "concat (map line_items demo_orders) = [item7, item8, item9] @ item0 # [item7]"
    by (simp add: demo_orders_def)
  have flat': "concat (map line_items [\<lparr>order_number = 1001, line_items = [item7]\<rparr>,
                               \<lparr>order_number = 1002, line_items = [item8, item9, item7]\<rparr>]) =
       [item7, item8, item9] @ [item7]"
    by simp
  from falsy_product_id_skipped [OF falsy, of catalog_net shop "init_state []" demo_orders
       "[item7, item8, item9]" "[item7]" _ "[]"] falsy flat flat'
  show ?thesis by blast
qed

subsection \<open>The order-number range fetch\<close>

lemma range_loop_done:
  "\<not> truthy (nextUrl st) \<Longrightarrow>
   range_loop net creds startNum st = Some (Inr (allOrders st), page_requests st)"
  by (subst range_loop.simps) (simp add: truthy_def split: option.splits)

lemma range_loop_step:
  "nextUrl st = Some u \<Longrightarrow> u \<noteq> [] \<Longrightarrow>
   range_loop net creds startNum st =
     (case range_body net creds startNum st u of
        Again st' \<Rightarrow> range_loop net creds startNum st'
      | Leave st' \<Rightarrow> Some (Inr (allOrders st'), page_requests st')
      | Throw err reqs \<Rightarrow> Some (Inl err, reqs))"
  by (subst range_loop.simps) simp

lemma range_body_served:
  assumes "serves net creds (length (page_requests st)) ((u, page) # rest)"
  shows "range_body net creds startNum st u =
     (if page = [] then Leave (st\<lparr>page_requests := page_requests st @ [orders_request creds u]\<rparr>)
      else if order_number (last page) < startNum
      then Leave (st\<lparr>allOrders := allOrders st @ page,
                     page_requests := page_requests st @ [orders_request creds u]\<rparr>)
      else Again \<lparr>allOrders = allOrders st @ page,
                  nextUrl = (case net (length (page_requests st)) (orders_request creds u) of
                               Resolved response \<Rightarrow>
                                 (case next_url (link response) of Inr nxt \<Rightarrow> nxt)),
                  page_requests = page_requests st @ [orders_request creds u]\<rparr>)"
  using assms
  by (auto simp add: range_body_def fetch_def Let_def last_conv_nth
      split: outcome.splits sum.splits)

lemma served_next:
  assumes "serves net creds n ((u, page) # rest)"
  shows "(case net n (orders_request creds u) of
            Resolved response \<Rightarrow> (case next_url (link response) of Inr nxt \<Rightarrow> nxt)) =
         (case rest of [] \<Rightarrow> (case net n (orders_request creds u) of
            Resolved response \<Rightarrow> (case next_url (link response) of Inr nxt \<Rightarrow> nxt))
          | (u', page') # rest' \<Rightarrow> Some u')
         \<and> (rest = [] \<longrightarrow> \<not> truthy (case net n (orders_request creds u) of
            Resolved response \<Rightarrow> (case next_url (link response) of Inr nxt \<Rightarrow> nxt)))
         \<and> serves net creds (Suc n) rest \<and> u \<noteq> []"
  using assms
  by (auto split: outcome.splits sum.splits list.splits)

lemma range_loop_served:
  "serves net creds (length reqs) ((u, page) # rest) \<Longrightarrow>
   range_loop net creds startNum \<lparr>allOrders = acc, nextUrl = Some u, page_requests = reqs\<rparr> =
     Some (Inr (acc @ concat (map snd (visited startNum ((u, page) # rest)))),
           reqs @ map (\<lambda>(u, page). orders_request creds u) (visited startNum ((u, page) # rest)))"
proof (induction rest arbitrary: u page acc reqs)
  case Nil
  let ?st = "\<lparr>allOrders = acc, nextUrl = Some u, page_requests = reqs\<rparr>"
  have sv: "serves net creds (length (page_requests ?st)) ((u, page) # [])"
    using Nil by simp
  note nx = served_next [OF Nil]
  show ?case
    using nx
    by (subst range_loop_step [of ?st u]) (simp_all add: range_body_served [OF sv] range_loop_done)
next
  case (Cons second rest)
  obtain u' page' where second: "second = (u', page')" by (cases second)
  let ?st = "\<lparr>allOrders = acc, nextUrl = Some u, page_requests = reqs\<rparr>"
  have sv: "serves net creds (length (page_requests ?st)) ((u, page) # second # rest)"
    using Cons.prems by simp
  note nx = served_next [OF Cons.prems]
  have sv': "serves net creds (length (reqs @ [orders_request creds u])) ((u', page') # rest)"
    using nx second by simp
  show ?case
    using nx second Cons.IH [OF sv', of "acc @ page"]
    by (subst range_loop_step [of ?st u]) (simp_all add: range_body_served [OF sv])
qed

text \<open>
  Over a served chain the function returns, and returns the orders of the visited pages
  that lie in the range, having requested exactly the visited pages.
\<close>

lemma range_fetch_served:
  assumes "serves net creds (length reqs) ((first_page_url creds, page) # later)"
  shows "getOrdersByNumberRange net creds startNum endNum reqs =
     Some (Inr (filter (in_range startNum endNum)
                  (concat (map snd (visited startNum ((first_page_url creds, page) # later))))),
           reqs @ map (\<lambda>(u, page). orders_request creds u)
                      (visited startNum ((first_page_url creds, page) # later)))"
  by (simp add: getOrdersByNumberRange_def range_loop_served [OF assms] del: visited.simps)

lemma range_body_Again:
  "range_body net creds startNum st u = Again st' \<Longrightarrow>
   page_requests st' = page_requests st @ [orders_request creds u] \<and>
   (\<exists>r. net (length (page_requests st)) (orders_request creds u) = Resolved r \<and> ok r)"
  by (auto simp add: range_body_def fetch_def Let_def
      split: outcome.splits sum.splits if_splits)

lemma range_body_Leave:
  "range_body net creds startNum st u = Leave st' \<Longrightarrow>
   page_requests st' = page_requests st @ [orders_request creds u] \<and>
   (\<exists>r. net (length (page_requests st)) (orders_request creds u) = Resolved r \<and> ok r)"
  by (auto simp add: range_body_def fetch_def Let_def
      split: outcome.splits sum.splits if_splits)

lemma range_body_Throw:
  "range_body net creds startNum st u = Throw err reqs \<Longrightarrow>
   reqs = page_requests st @ [orders_request creds u] \<and>
   (\<forall>r. net (length (page_requests st)) (orders_request creds u) = Resolved r \<longrightarrow> \<not> ok r \<longrightarrow>
        err = Error (''Shopify API error: '' @ statusText r @ ''. Details: '' @ body_text r))"
  by (auto simp add: range_body_def fetch_def Let_def
      split: outcome.splits sum.splits if_splits)

lemma range_body_not_ok:
  "net (length (page_requests st)) (orders_request creds u) = Resolved r \<Longrightarrow> \<not> ok r \<Longrightarrow>
   range_body net creds startNum st u =
     Throw (Error (''Shopify API error: '' @ statusText r @ ''. Details: '' @ body_text r))
           (page_requests st @ [orders_request creds u])"
  by (simp add: range_body_def fetch_def)

lemma aborts_at_single:
  "(\<forall>r. net (length reqs) req = Resolved r \<longrightarrow> \<not> ok r \<longrightarrow>
      res = Inl (Error (''Shopify API error: '' @ statusText r @ ''. Details: '' @ body_text r))) \<Longrightarrow>
   aborts_at net reqs (res, reqs @ [req])"
  by (auto simp add: aborts_at_def)

lemma aborts_at_later:
  assumes "net (length reqs) req = Resolved r" and "ok r"
    and "aborts_at net (reqs @ [req]) y"
  shows "aborts_at net reqs y"
proof -
  from assms(3) obtain new where new: "snd y = (reqs @ [req]) @ new"
    and ab: "\<forall>k<length new. \<forall>r. net (length (reqs @ [req]) + k) (new ! k) = Resolved r \<longrightarrow> \<not> ok r \<longrightarrow>
           fst y = Inl (Error (''Shopify API error: '' @ statusText r @ ''. Details: '' @ body_text r))
           \<and> Suc k = length new"
    by (auto simp add: aborts_at_def)
  have "\<forall>k<length (req # new). \<forall>r. net (length reqs + k) ((req # new) ! k) = Resolved r \<longrightarrow> \<not> ok r \<longrightarrow>
           fst y = Inl (Error (''Shopify API error: '' @ statusText r @ ''. Details: '' @ body_text r))
           \<and> Suc k = length (req # new)"
  proof (intro allI impI)
    fix k r'
    assume k: "k < length (req # new)"
      and res: "net (length reqs + k) ((req # new) ! k) = Resolved r'" and nok: "\<not> ok r'"
    show "fst y = Inl (Error (''Shopify API error: '' @ statusText r' @ ''. Details: '' @ body_text r'))
           \<and> Suc k = length (req # new)"
    proof (cases k)
      case 0
      with res assms(1,2) nok show ?thesis by simp
    next
      case (Suc j)
      with k res nok ab show ?thesis by simp
    qed
  qed
  with new show ?thesis
    unfolding aborts_at_def by (intro exI [of _ "req # new"]) simp
qed

lemma range_loop_aborts:
  "range_loop net creds startNum st = Some y \<Longrightarrow> aborts_at net (page_requests st) y"
proof (induction rule: range_loop.raw_induct [rotated 1, consumes 1, case_names body])
  case (body loop net creds startNum st y)
  note IH = body(1) and unfolded = body(2)
  show ?case
  proof (cases "nextUrl st")
    case None
    with unfolded show ?thesis by (auto simp add: aborts_at_def)
  next
    case (Some u)
    show ?thesis
    proof (cases "u = []")
      case True
      with unfolded Some show ?thesis by (auto simp add: aborts_at_def)
    next
      case False
      show ?thesis
      proof (cases "range_body net creds startNum st u")
        case (Again st')
        with unfolded Some False have "loop net creds startNum st' = Some y" by simp
        from IH [OF this] range_body_Again [OF Again] show ?thesis
          by (auto intro: aborts_at_later)
      next
        case (Leave st')
        with unfolded Some False have y: "y = (Inr (allOrders st'), page_requests st')" by simp
        from range_body_Leave [OF Leave] show ?thesis
          unfolding y by (auto intro!: aborts_at_single)
      next
        case (Throw err reqs)
        with unfolded Some False have y: "y = (Inl err, reqs)" by simp
        from range_body_Throw [OF Throw] show ?thesis
          unfolding y by (auto intro!: aborts_at_single)
      qed
    qed
  qed
qed

lemma descending_tail_below:
  assumes "descending (page @ later)" and "page \<noteq> []" and "order_number (last page) < startNum"
  shows "filter (in_range startNum endNum) later = []"
proof -
  have "last page \<in> set page" using assms(2) by simp
  then have "\<forall>b \<in> set later. order_number b \<le> order_number (last page)"
    using assms(1) by (auto simp add: descending_def sorted_wrt_append)
  with assms(3) show ?thesis
    by (auto simp add: filter_empty_conv in_range_def Let_def)
qed

lemma visited_complete:
  "descending (concat (map snd chain)) \<Longrightarrow> empty_pages_last (map snd chain) \<Longrightarrow>
   filter (in_range startNum endNum) (concat (map snd (visited startNum chain))) =
   filter (in_range startNum endNum) (concat (map snd chain))"
proof (induction chain)
  case Nil
  then show ?case by simp
next
  case (Cons e chain)
  obtain u page where e: "e = (u, page)" by (cases e)
  have desc: "descending (page @ concat (map snd chain))"
    using Cons.prems(1) e by simp
  then have desc': "descending (concat (map snd chain))"
    by (simp add: descending_def sorted_wrt_append)
  have last': "empty_pages_last (map snd chain)"
    using Cons.prems(2) by simp
  show ?case
  proof (cases "page = []")
    case True
    with Cons.prems(2) e show ?thesis by simp
  next
    case False
    show ?thesis
    proof (cases "order_number (last page) < startNum")
      case True
      from descending_tail_below [OF desc False True] e False True show ?thesis by simp
    next
      case stay: False
      with Cons.IH [OF desc' last'] e False show ?thesis by simp
    qed
  qed
qed

text \<open>Running the range fetch on the sample shop.\<close>

lemmas range_eval =
  shop_net_def shop_chain_def orders_page_def json_response_def first_page_url_def page2_url_def
  page3_url_def orders_base_def shop_def orders_request_def orders_or_empty_def next_url_def
  rel_next_def rel_previous_def truthy_def line_terminator_def day_url_def
  o200_def o150_def o110_def o90_def o50_def gap_net_def gap_chain_def busy_net_def too_many_def
  catalog_net_def product_request_def string_of_int_def string_of_nat.simps digit_char_def

lemma shop_chain_served: "serves shop_net shop 0 shop_chain"
  by (simp add: range_eval)

lemma shop_chain_descending: "descending (concat (map snd shop_chain))"
  by (simp add: shop_chain_def descending_def o200_def o150_def o110_def o90_def o50_def)

lemma shop_chain_visited:
  "visited 100 shop_chain = [(first_page_url shop, [o200, o150]), (page2_url, [o110, o90])]"
  by (simp add: shop_chain_def o200_def o150_def o110_def o90_def o50_def)

lemma gap_chain_served: "serves gap_net shop 0 gap_chain"
  by (simp add: range_eval)

lemma shop_range_100_120:
  "getOrdersByNumberRange shop_net shop 100 120 [] =
     Some (Inr [o110], [orders_request shop (first_page_url shop), orders_request shop page2_url])"
  using range_fetch_served [of shop_net shop "[]" "[o200, o150]"
          "[(page2_url, [o110, o90]), (page3_url, [o50])]" 100 120] shop_chain_served
  by (simp add: shop_chain_def in_range_def Let_def o200_def o150_def o110_def o90_def o50_def)

lemma shop_range_300_400:
  "getOrdersByNumberRange shop_net shop 300 400 [] =
     Some (Inr [], [orders_request shop (first_page_url shop)])"
  using range_fetch_served [of shop_net shop "[]" "[o200, o150]"
          "[(page2_url, [o110, o90]), (page3_url, [o50])]" 300 400] shop_chain_served
  by (simp add: shop_chain_def in_range_def Let_def o200_def o150_def o110_def o90_def o50_def)

text \<open>
  C2, as stated, fails. The loop also stops at an empty page, whatever comes after it.
  When the first page is empty and links to a second page that lists order 110, the pages
  taken together list the open orders in descending order, 110 lies in the range from 100
  to 120, and the fetch returns no order, having requested the first page only.
\<close>

theorem empty_page_hides_orders_counterexample:
  "serves gap_net shop 0 gap_chain
   \<and> descending (concat (map snd gap_chain))
   \<and> (100 :: int) \<le> 120
   \<and> o110 \<in> set (concat (map snd gap_chain))
   \<and> in_range 100 120 o110
   \<and> getOrdersByNumberRange gap_net shop 100 120 [] =
       Some (Inr [], [orders_request shop (first_page_url shop)])"
proof -
  have run: "getOrdersByNumberRange gap_net shop 100 120 [] =
       Some (Inr [], [orders_request shop (first_page_url shop)])"
    using range_fetch_served [of gap_net shop "[]" "[]"
            "[(page2_url, [o110, o90]), (page3_url, [o50])]" 100 120] gap_chain_served
    by (simp add: gap_chain_def)
  have desc: "descending (concat (map snd gap_chain))"
    by (simp add: gap_chain_def descending_def o110_def o90_def o50_def)
  have mem: "o110 \<in> set (concat (map snd gap_chain))"
    by (simp add: gap_chain_def)
  have rng: "in_range 100 120 o110"
    by (simp add: in_range_def Let_def o110_def)
  from gap_chain_served desc mem rng run show ?thesis by simp
qed

text \<open>
  C2, amended. Let the upstream serve a chain of pages starting at the first URL, let
  the pages taken together list the orders in descending order of \<^verbatim>\<open>order_number\<close>, and
  let no page with orders come after an empty page. Then the range fetch returns, its
  result is the list of all orders of the chain whose number lies between \<open>startNum\<close> and
  \<open>endNum\<close>, and the requests it issued are those for the pages up to and including the
  first page that is empty or whose last order has a number below \<open>startNum\<close>.
\<close>

theorem range_fetch_complete:
  assumes "serves net creds (length reqs) ((first_page_url creds, page) # later)"
      and "descending (concat (map snd ((first_page_url creds, page) # later)))"
      and "empty_pages_last (map snd ((first_page_url creds, page) # later))"
  shows "getOrdersByNumberRange net creds startNum endNum reqs =
     Some (Inr (filter (\<lambda>order. startNum \<le> order_number order \<and> order_number order \<le> endNum)
                  (concat (map snd ((first_page_url creds, page) # later)))),
           reqs @ map (\<lambda>(u, page). orders_request creds u)
                      (visited startNum ((first_page_url creds, page) # later)))"
proof -
  have "in_range startNum endNum =
        (\<lambda>order. startNum \<le> order_number order \<and> order_number order \<le> endNum)"
    by (rule ext) (simp add: in_range_def Let_def)
  with visited_complete [OF assms(2,3), of startNum endNum] range_fetch_served [OF assms(1)]
  show ?thesis by simp
qed

theorem range_fetch_complete_witness:
  "serves shop_net shop (length ([] :: request list)) ((first_page_url shop, [o200, o150]) #
      [(page2_url, [o110, o90]), (page3_url, [o50])])
   \<and> descending (concat (map snd ((first_page_url shop, [o200, o150]) #
      [(page2_url, [o110, o90]), (page3_url, [o50])])))
   \<and> empty_pages_last (map snd ((first_page_url shop, [o200, o150]) #
      [(page2_url, [o110, o90]), (page3_url, [o50])]))
   \<and> getOrdersByNumberRange shop_net shop 100 120 [] =
       Some (Inr [o110], [orders_request shop (first_page_url shop), orders_request shop page2_url])"
proof -
  let ?later = "[(page2_url, [o110, o90]), (page3_url, [o50])]"
  have sv: "serves shop_net shop (length ([] :: request list)) ((first_page_url shop, [o200, o150]) # ?later)"
    using shop_chain_served by (simp add: shop_chain_def)
  have desc: "descending (concat (map snd ((first_page_url shop, [o200, o150]) # ?later)))"
    using shop_chain_descending by (simp add: shop_chain_def)
  have emp: "empty_pages_last (map snd ((first_page_url shop, [o200, o150]) # ?later))"
    by simp
  from range_fetch_complete [OF sv desc emp, of 100 120] sv desc emp show ?thesis
    by (simp add: o200_def o150_def o110_def o90_def o50_def)
qed

text \<open>
  C3. Whatever the upstream answers, every order in a list returned by the range fetch
  has a number between \<open>startNum\<close> and \<open>endNum\<close>, both included.
\<close>

theorem range_fetch_within_range:
  assumes "getOrdersByNumberRange net creds startNum endNum reqs = Some (Inr found, reqs')"
  shows "\<forall>order \<in> set found. startNum \<le> order_number order \<and> order_number order \<le> endNum"
  using assms
  by (auto simp add: getOrdersByNumberRange_def in_range_def Let_def
      split: option.splits sum.splits prod.splits)

theorem range_fetch_within_range_witness:
  "getOrdersByNumberRange shop_net shop 100 120 [] =
     Some (Inr [o110], [orders_request shop (first_page_url shop), orders_request shop page2_url])
   \<and> list_all (\<lambda>order. 100 \<le> order_number order \<and> order_number order \<le> 120) [o110]"
  using range_fetch_within_range [OF shop_range_100_120] shop_range_100_120
  by (simp add: list_all_iff)


subsection \<open>The date fetch\<close>

lemma day_bounds:
  assumes "- 8640000000000000 \<le> t" and "t < 8640000000000000"
  shows "- 8640000000000000 \<le> t div msPerDay * msPerDay"
    and "t div msPerDay * msPerDay + 86399999 \<le> 8640000000000000"
proof -
  have "- 100000000 \<le> t div 86400000" using assms(1) by linarith
  then show "- 8640000000000000 \<le> t div msPerDay * msPerDay"
    by (simp add: msPerDay_def)
  have "t div 86400000 < 100000000" using assms(2) by linarith
  then show "t div msPerDay * msPerDay + 86399999 \<le> 8640000000000000"
    by (simp add: msPerDay_def)
qed

lemma setUTCHours_start:
  assumes "- 8640000000000000 \<le> t" and "t < 8640000000000000"
  shows "setUTCHours (Some t) 0 0 0 0 = Some (t div msPerDay * msPerDay)"
  using day_bounds [OF assms] by (simp add: setUTCHours_def time_clip_def)

lemma setUTCHours_end:
  assumes "- 8640000000000000 \<le> t" and "t < 8640000000000000"
  shows "setUTCHours (Some t) 23 59 59 999 = Some (t div msPerDay * msPerDay + 86399999)"
  using day_bounds [OF assms] by (simp add: setUTCHours_def time_clip_def)

lemma iso_time_midnight: "iso_time 0 = ''00:00:00.000''"
  by (simp add: iso_time_def pad_def string_of_nat.simps digit_char_def replicate_num)

lemma iso_time_last: "iso_time 86399999 = ''23:59:59.999''"
  by (simp add: iso_time_def pad_def string_of_nat.simps digit_char_def replicate_num)

lemma toISOString_start:
  "toISOString (Some (d * msPerDay)) = Inr (iso_date d @ ''T00:00:00.000Z'')"
  by (simp add: toISOString_def iso_time_midnight) (simp add: msPerDay_def)

lemma toISOString_end:
  "toISOString (Some (d * msPerDay + 86399999)) = Inr (iso_date d @ ''T23:59:59.999Z'')"
proof -
  have "(d * msPerDay + 86399999) div msPerDay = d" "(d * msPerDay + 86399999) mod msPerDay = 86399999"
    by (simp_all add: msPerDay_def)
  then show ?thesis
    by (simp add: toISOString_def iso_time_last)
qed

lemma urlencode_append: "urlencode (a @ b) = urlencode a @ urlencode b"
  by (simp add: urlencode_def)

lemma urlencode_midnight: "urlencode ''T00:00:00.000Z'' = ''T00%3A00%3A00.000Z''"
  by (simp add: urlencode_def encode_char_def unreserved_def hex_digit_def)

lemma urlencode_last: "urlencode ''T23:59:59.999Z'' = ''T23%3A59%3A59.999Z''"
  by (simp add: urlencode_def encode_char_def unreserved_def hex_digit_def)

lemma date_params:
  "url_search_params
     [(''status'', ''open''), (''created_at_min'', iso_date d @ ''T00:00:00.000Z''),
      (''created_at_max'', iso_date d @ ''T23:59:59.999Z''), (''limit'', ''250'')] = date_query d"
proof -
  have names: "urlencode ''status'' = ''status''" "urlencode ''open'' = ''open''"
    "urlencode ''created_at_min'' = ''created_at_min''"
    "urlencode ''created_at_max'' = ''created_at_max''"
    "urlencode ''limit'' = ''limit''" "urlencode ''250'' = ''250''"
    by (simp_all add: urlencode_def encode_char_def unreserved_def)
  show ?thesis
    by (simp add: names urlencode_append urlencode_midnight urlencode_last date_query_def
        del: append.simps list.simps) 
qed

lemma getOrdersByDate_unfold:
  assumes "- 8640000000000000 \<le> t" and "t < 8640000000000000"
  shows "getOrdersByDate net creds (Some t) reqs =
     (case net (length reqs) (date_request creds t) of
        Rejected e \<Rightarrow> Inl (Error e)
      | Resolved response \<Rightarrow>
          if \<not> ok response then Inl (Error (''Shopify API error: '' @ statusText response))
          else (case json response of
                  Inl e \<Rightarrow> Inl (Error e)
                | Inr data \<Rightarrow> Inr (orders_or_empty data)),
      reqs @ [date_request creds t])"
  by (simp add: getOrdersByDate_def setUTCHours_start [OF assms] setUTCHours_end [OF assms]
      toISOString_start toISOString_end date_params fetch_def date_request_def Let_def
      split: outcome.splits sum.splits del: url_search_params.simps)

text \<open>Running the date fetch on the sample shop, for an instant of 2024-05-01.\<close>

lemma string_of_nat_0: "string_of_nat 0 = ''0''"
  by (subst string_of_nat.simps) (simp add: digit_char_def)

lemma string_of_nat_1: "string_of_nat 1 = ''1''" "string_of_nat (Suc 0) = ''1''"
  by (subst string_of_nat.simps, simp add: digit_char_def)+

lemmas string_of_nat_num =
  string_of_nat_0 string_of_nat_1 string_of_nat.simps [of "numeral k"] for k

lemma sample_day_civil: "civil_from_days 19844 = (2024, 5, 1)"
  by code_simp

lemma sample_day_iso: "iso_date (1714561234567 div msPerDay) = ''2024-05-01''"
  by (simp add: msPerDay_def iso_date_def sample_day_civil iso_year_def pad_def
      string_of_nat_num digit_char_def replicate_num)

lemma sample_day_request: "date_request shop 1714561234567 = orders_request shop day_url"
  by (simp add: date_request_def date_query_def sample_day_iso urlencode_def
      encode_char_def unreserved_def day_url_def)





subsection \<open>Failures of the order fetch\<close>

lemma range_loop_rec:
  "u \<noteq> [] \<Longrightarrow>
   range_loop net creds startNum \<lparr>allOrders = fetched, nextUrl = Some u, page_requests = reqs\<rparr> =
     (case range_body net creds startNum
             \<lparr>allOrders = fetched, nextUrl = Some u, page_requests = reqs\<rparr> u of
        Again st' \<Rightarrow> range_loop net creds startNum st'
      | Leave st' \<Rightarrow> Some (Inr (allOrders st'), page_requests st')
      | Throw err reqs' \<Rightarrow> Some (Inl err, reqs'))"
  by (rule range_loop_step) simp_all

lemma range_fetch_aborts:
  assumes "getOrdersByNumberRange net creds startNum endNum reqs = Some (res, reqs')"
  shows "aborts_at net reqs (res, reqs')"
proof -
  let ?st = "\<lparr>allOrders = [], nextUrl = Some (first_page_url creds), page_requests = reqs\<rparr>"
  from assms obtain y where y: "range_loop net creds startNum ?st = Some y"
    by (auto simp add: getOrdersByNumberRange_def split: option.splits)
  from range_loop_aborts [OF y] have ab: "aborts_at net reqs y" by simp
  show ?thesis
  proof (cases "fst y")
    case (Inl err)
    with assms y have "y = (res, reqs')"
      by (cases y) (simp add: getOrdersByNumberRange_def)
    with ab show ?thesis by simp
  next
    case (Inr found)
    with assms y have "snd y = reqs'"
      by (cases y) (simp add: getOrdersByNumberRange_def)
    with ab Inr show ?thesis
      by (auto simp add: aborts_at_def)
  qed
qed

text \<open>Running the range fetch on the sample shop when its second page is refused.\<close>

lemma busy_second_page:
  "busy_net (length [orders_request shop (first_page_url shop)]) (orders_request shop page2_url) =
     Resolved too_many"
  by (simp add: busy_net_def orders_request_def)

lemma busy_first_page:
  "range_body busy_net shop 100
     \<lparr>allOrders = [], nextUrl = Some (first_page_url shop), page_requests = []\<rparr>
     (first_page_url shop) =
   Again \<lparr>allOrders = [o200, o150], nextUrl = Some page2_url,
          page_requests = [orders_request shop (first_page_url shop)]\<rparr>"
  by (simp add: range_body_def fetch_def busy_net_def range_eval Let_def)

lemma page2_url_nonempty: "page2_url \<noteq> []" "first_page_url shop \<noteq> []"
  by (simp_all add: page2_url_def first_page_url_def orders_base_def)

lemma busy_range:
  "getOrdersByNumberRange busy_net shop 100 120 [] =
     Some (Inl (Error ''Shopify API error: Too Many Requests. Details: slow down''),
           [orders_request shop (first_page_url shop), orders_request shop page2_url])"
  using range_body_not_ok [of busy_net
          "\<lparr>allOrders = [o200, o150], nextUrl = Some page2_url,
            page_requests = [orders_request shop (first_page_url shop)]\<rparr>" shop page2_url too_many 100]
        busy_second_page
  by (simp add: getOrdersByNumberRange_def range_loop_rec page2_url_nonempty busy_first_page
      too_many_def)

text \<open>
  C6. In the date mode, a reply to the one request that is not \<^verbatim>\<open>ok\<close> makes the fetch
  throw the error \<^verbatim>\<open>Shopify API error: <statusText>\<close>. In the range mode, whatever
  has been accumulated, a reply that is not \<^verbatim>\<open>ok\<close> makes the loop end at once with the
  error \<^verbatim>\<open>Shopify API error: <statusText>. Details: <body>\<close>; and in every run of the
  range fetch that ends, a request answered with a reply that is not \<^verbatim>\<open>ok\<close> is the
  last request of the run, and the outcome of the run is that error, not a list of orders.
\<close>

theorem upstream_failure_aborts_fetch:
  "(- 8640000000000000 \<le> t \<longrightarrow> t < 8640000000000000 \<longrightarrow>
      net (length reqs) (date_request creds t) = Resolved r \<longrightarrow> \<not> ok r \<longrightarrow>
      getOrdersByDate net creds (Some t) reqs =
        (Inl (Error (''Shopify API error: '' @ statusText r)), reqs @ [date_request creds t]))
   \<and> (u \<noteq> [] \<longrightarrow> net (length reqs) (orders_request creds u) = Resolved r \<longrightarrow> \<not> ok r \<longrightarrow>
      range_loop net creds startNum
        \<lparr>allOrders = fetched, nextUrl = Some u, page_requests = reqs\<rparr> =
        Some (Inl (Error (''Shopify API error: '' @ statusText r @ ''. Details: '' @ body_text r)),
              reqs @ [orders_request creds u]))
   \<and> (getOrdersByNumberRange net creds startNum endNum reqs = Some (res, reqs') \<longrightarrow>
      (\<exists>new. reqs' = reqs @ new \<and>
         (\<forall>k<length new. \<forall>r. net (length reqs + k) (new ! k) = Resolved r \<longrightarrow> \<not> ok r \<longrightarrow>
            res = Inl (Error (''Shopify API error: '' @ statusText r @ ''. Details: '' @ body_text r))
            \<and> Suc k = length new)))"
proof (intro conjI impI)
  assume "- 8640000000000000 \<le> t" and "t < 8640000000000000"
    and "net (length reqs) (date_request creds t) = Resolved r" and "\<not> ok r"
  then show "getOrdersByDate net creds (Some t) reqs =
        (Inl (Error (''Shopify API error: '' @ statusText r)), reqs @ [date_request creds t])"
    by (simp add: getOrdersByDate_unfold)
next
  let ?st = "\<lparr>allOrders = fetched, nextUrl = Some u, page_requests = reqs\<rparr>"
  assume "u \<noteq> []" and "net (length reqs) (orders_request creds u) = Resolved r" and "\<not> ok r"
  then show "range_loop net creds startNum ?st =
        Some (Inl (Error (''Shopify API error: '' @ statusText r @ ''. Details: '' @ body_text r)),
              reqs @ [orders_request creds u])"
    using range_body_not_ok [of net ?st creds u r startNum]
    by (simp add: range_loop_rec)
next
  assume "getOrdersByNumberRange net creds startNum endNum reqs = Some (res, reqs')"
  from range_fetch_aborts [OF this]
  show "\<exists>new. reqs' = reqs @ new \<and>
         (\<forall>k<length new. \<forall>r. net (length reqs + k) (new ! k) = Resolved r \<longrightarrow> \<not> ok r \<longrightarrow>
            res = Inl (Error (''Shopify API error: '' @ statusText r @ ''. Details: '' @ body_text r))
            \<and> Suc k = length new)"
    by (simp add: aborts_at_def)
qed

theorem upstream_failure_aborts_fetch_witness:
  "- 8640000000000000 \<le> (1714561234567 :: int) \<and> (1714561234567 :: int) < 8640000000000000
   \<and> down_net (length ([] :: request list)) (date_request shop 1714561234567) = Resolved unavailable
   \<and> \<not> ok unavailable
   \<and> getOrdersByDate down_net shop (Some 1714561234567) [] =
       (Inl (Error ''Shopify API error: Service Unavailable''), [orders_request shop day_url])
   \<and> page2_url \<noteq> []
   \<and> busy_net (length [orders_request shop (first_page_url shop)]) (orders_request shop page2_url) =
       Resolved too_many
   \<and> \<not> ok too_many
   \<and> range_loop busy_net shop 100
        \<lparr>allOrders = [o200, o150], nextUrl = Some page2_url,
         page_requests = [orders_request shop (first_page_url shop)]\<rparr> =
       Some (Inl (Error ''Shopify API error: Too Many Requests. Details: slow down''),
             [orders_request shop (first_page_url shop), orders_request shop page2_url])
   \<and> getOrdersByNumberRange busy_net shop 100 120 [] =
       Some (Inl (Error ''Shopify API error: Too Many Requests. Details: slow down''),
             [orders_request shop (first_page_url shop), orders_request shop page2_url])
   \<and> [orders_request shop (first_page_url shop), orders_request shop page2_url] =
       [] @ [orders_request shop (first_page_url shop), orders_request shop page2_url]
   \<and> busy_net (length ([] :: request list) + 1)
        ([orders_request shop (first_page_url shop), orders_request shop page2_url] ! 1) =
       Resolved too_many
   \<and> Suc 1 = length [orders_request shop (first_page_url shop), orders_request shop page2_url]"
proof -
  have lo: "- 8640000000000000 \<le> (1714561234567 :: int)" and hi: "(1714561234567 :: int) < 8640000000000000"
    by simp_all
  have down: "down_net (length ([] :: request list)) (date_request shop 1714561234567) = Resolved unavailable"
    by (simp add: down_net_def)
  have nok: "\<not> ok unavailable"
    by (simp add: unavailable_def)
  have nok2: "\<not> ok too_many"
    by (simp add: too_many_def)
  note th = upstream_failure_aborts_fetch [of 1714561234567 down_net "[]" shop unavailable]
  have date: "getOrdersByDate down_net shop (Some 1714561234567) [] =
       (Inl (Error ''Shopify API error: Service Unavailable''), [orders_request shop day_url])"
    using th [THEN conjunct1] lo hi down nok
    by (simp add: sample_day_request unavailable_def)
  note th2 = upstream_failure_aborts_fetch [of _ busy_net "[orders_request shop (first_page_url shop)]"
      shop too_many page2_url 100 "[o200, o150]"]
  have loop: "range_loop busy_net shop 100
        \<lparr>allOrders = [o200, o150], nextUrl = Some page2_url,
         page_requests = [orders_request shop (first_page_url shop)]\<rparr> =
       Some (Inl (Error ''Shopify API error: Too Many Requests. Details: slow down''),
             [orders_request shop (first_page_url shop), orders_request shop page2_url])"
    using th2 [THEN conjunct2, THEN conjunct1] page2_url_nonempty(1) busy_second_page nok2
    by (simp add: too_many_def)
  have idx: "busy_net (length ([] :: request list) + 1)
        ([orders_request shop (first_page_url shop), orders_request shop page2_url] ! 1) =
       Resolved too_many"
    using busy_second_page by simp
  from lo hi down nok date page2_url_nonempty(1) busy_second_page nok2 loop busy_range idx
  show ?thesis
    by (intro conjI) simp_all
qed


subsection \<open>The handler\<close>

lemma sample_credentials: "credentials sample_env = shop"
  by (simp add: credentials_def sample_env_def shop_def)

lemma sample_no_images:
  "getAllImageUrlsByQuantity shop_net shop [o110]
     [orders_request shop (first_page_url shop), orders_request shop page2_url] =
   ([], [orders_request shop (first_page_url shop), orders_request shop page2_url,
         product_request shop (IdNum 8)])"
  by (simp add: resolver_eval o110_def shop_net_def first_page_url_def page2_url_def page3_url_def
      day_url_def orders_base_def)

text \<open>
  C8. On a POST request with the configuration in place and a body that parses, when the
  order fetch of the requested mode returns no order, or returns orders for which image
  resolution returns no URL, the handler answers with status 200 and a body that holds a
  message and no \<^verbatim>\<open>downloadUrl\<close>; the archive streamer is not called, and the only requests
  issued are those of the order fetch and, in the second case, of the resolution.
\<close>

theorem empty_result_no_archive:
  assumes "httpMethod ev = ''POST''"
      and "truthy (env_SHOPIFY_STORE_NAME env)"
      and "truthy (env_ADMIN_API_ACCESS_TOKEN env)"
      and "event_body ev = Inr body"
      and "(body_type body = ''date'' \<and>
            getOrdersByDate net (credentials env) (body_date body) [] = (Inr ords, reqs))
           \<or> (body_type body = ''order_range'' \<and>
               getOrdersByNumberRange net (credentials env) (body_start body) (body_end body) [] =
                 Some (Inr ords, reqs))"
      and "ords = [] \<or> fst (getAllImageUrlsByQuantity net (credentials env) ords reqs) = []"
  shows "handler pf net env ev =
           Some \<lparr>http = \<lparr>statusCode = 200, content_type = None,
                          message_field =
                            (if ords = []
                             then ''No unfulfilled orders found for the selected criteria.''
                             else ''No product images found in these unfulfilled orders.''),
                          downloadUrl = None\<rparr>,
                 issued =
                   (if ords = [] then reqs
                    else snd (getAllImageUrlsByQuantity net (credentials env) ords reqs)),
                 streamed = None\<rparr>"
proof -
  let ?creds = "credentials env"
  have orders: "handle_orders pf net ?creds (blob_credentials env) ords reqs =
      \<lparr>http = \<lparr>statusCode = 200, content_type = None,
                 message_field =
                   (if ords = []
                    then ''No unfulfilled orders found for the selected criteria.''
                    else ''No product images found in these unfulfilled orders.''),
                 downloadUrl = None\<rparr>,
        issued = (if ords = [] then reqs else snd (getAllImageUrlsByQuantity net ?creds ords reqs)),
        streamed = None\<rparr>"
    using assms(6)
    by (cases "getAllImageUrlsByQuantity net ?creds ords reqs")
       (auto simp add: handle_orders_def reply_def)
  from assms(5) show ?thesis
  proof
    assume "body_type body = ''date'' \<and>
            getOrdersByDate net ?creds (body_date body) [] = (Inr ords, reqs)"
    with assms(1-4) orders show ?thesis
      by (simp add: handler_def after_fetch_def)
  next
    assume "body_type body = ''order_range'' \<and>
            getOrdersByNumberRange net ?creds (body_start body) (body_end body) [] =
              Some (Inr ords, reqs)"
    with assms(1-4) orders show ?thesis
      by (simp add: handler_def after_fetch_def)
  qed
qed

theorem empty_result_no_archive_witness:
  "httpMethod (range_event 300 400) = ''POST''
   \<and> truthy (env_SHOPIFY_STORE_NAME sample_env)
   \<and> truthy (env_ADMIN_API_ACCESS_TOKEN sample_env)
   \<and> getOrdersByNumberRange shop_net (credentials sample_env) 300 400 [] =
       Some (Inr [], [orders_request shop (first_page_url shop)])
   \<and> handler sample_platform shop_net sample_env (range_event 300 400) =
       Some \<lparr>http = \<lparr>statusCode = 200, content_type = None,
                      message_field = ''No unfulfilled orders found for the selected criteria.'',
                      downloadUrl = None\<rparr>,
             issued = [orders_request shop (first_page_url shop)],
             streamed = None\<rparr>
   \<and> getOrdersByNumberRange shop_net (credentials sample_env) 100 120 [] =
       Some (Inr [o110], [orders_request shop (first_page_url shop), orders_request shop page2_url])
   \<and> fst (getAllImageUrlsByQuantity shop_net (credentials sample_env) [o110]
             [orders_request shop (first_page_url shop), orders_request shop page2_url]) = []
   \<and> handler sample_platform shop_net sample_env (range_event 100 120) =
       Some \<lparr>http = \<lparr>statusCode = 200, content_type = None,
                      message_field = ''No product images found in these unfulfilled orders.'',
                      downloadUrl = None\<rparr>,
             issued = [orders_request shop (first_page_url shop), orders_request shop page2_url,
                       product_request shop (IdNum 8)],
             streamed = None\<rparr>"
proof -
  let ?body1 = "\<lparr>body_type = ''order_range'', body_date = None, body_start = 300, body_end = 400\<rparr>"
  let ?body2 = "\<lparr>body_type = ''order_range'', body_date = None, body_start = 100, body_end = 120\<rparr>"
  have post: "httpMethod (range_event 300 400) = ''POST''" "httpMethod (range_event 100 120) = ''POST''"
    by (simp_all add: range_event_def)
  have store: "truthy (env_SHOPIFY_STORE_NAME sample_env)"
    and tok: "truthy (env_ADMIN_API_ACCESS_TOKEN sample_env)"
    by (simp_all add: sample_env_def truthy_def)
  have body1: "event_body (range_event 300 400) = Inr ?body1"
    and body2: "event_body (range_event 100 120) = Inr ?body2"
    by (simp_all add: range_event_def)
  have fetch1: "getOrdersByNumberRange shop_net (credentials sample_env) 300 400 [] =
       Some (Inr [], [orders_request shop (first_page_url shop)])"
    by (simp add: sample_credentials shop_range_300_400)
  have fetch2: "getOrdersByNumberRange shop_net (credentials sample_env) 100 120 [] =
       Some (Inr [o110], [orders_request shop (first_page_url shop), orders_request shop page2_url])"
    by (simp add: sample_credentials shop_range_100_120)
  have none: "fst (getAllImageUrlsByQuantity shop_net (credentials sample_env) [o110]
             [orders_request shop (first_page_url shop), orders_request shop page2_url]) = []"
    by (simp add: sample_credentials sample_no_images)
  have h1: "(body_type ?body1 = ''date'' \<and>
            getOrdersByDate shop_net (credentials sample_env) (body_date ?body1) [] =
              (Inr [], [orders_request shop (first_page_url shop)]))
           \<or> (body_type ?body1 = ''order_range'' \<and>
               getOrdersByNumberRange shop_net (credentials sample_env) (body_start ?body1) (body_end ?body1) [] =
                 Some (Inr [], [orders_request shop (first_page_url shop)]))"
    using fetch1 by simp
  have h2: "(body_type ?body2 = ''date'' \<and>
            getOrdersByDate shop_net (credentials sample_env) (body_date ?body2) [] =
              (Inr [o110], [orders_request shop (first_page_url shop), orders_request shop page2_url]))
           \<or> (body_type ?body2 = ''order_range'' \<and>
               getOrdersByNumberRange shop_net (credentials sample_env) (body_start ?body2) (body_end ?body2) [] =
                 Some (Inr [o110], [orders_request shop (first_page_url shop), orders_request shop page2_url]))"
    using fetch2 by simp
  have r1: "handler sample_platform shop_net sample_env (range_event 300 400) =
       Some \<lparr>http = \<lparr>statusCode = 200, content_type = None,
                      message_field = ''No unfulfilled orders found for the selected criteria.'',
                      downloadUrl = None\<rparr>,
             issued = [orders_request shop (first_page_url shop)],
             streamed = None\<rparr>"
    using empty_result_no_archive [OF post(1) store tok body1 h1, of sample_platform] by simp
  have r2: "handler sample_platform shop_net sample_env (range_event 100 120) =
       Some \<lparr>http = \<lparr>statusCode = 200, content_type = None,
                      message_field = ''No product images found in these unfulfilled orders.'',
                      downloadUrl = None\<rparr>,
             issued = [orders_request shop (first_page_url shop), orders_request shop page2_url,
                       product_request shop (IdNum 8)],
             streamed = None\<rparr>"
    using empty_result_no_archive [OF post(2) store tok body2 h2 disjI2 [OF none], of sample_platform]
    by (simp add: sample_credentials sample_no_images)
  from post(1) store tok fetch1 r1 fetch2 none r2 show ?thesis
    by (intro conjI)
qed


subsection \<open>Runs of the archive streamer and of the whole handler on the sample shop\<close>



text \<open>
  The whole pipeline on the orders of 2024-05-01: order 90 has two units of product 7,
  order 110 has one unit of product 8, which has no image. Two requests download the
  image of product 7, the archive holds \<^verbatim>\<open>image-1.jpg\<close> and \<^verbatim>\<open>image-2.jpg\<close>, and the
  response reports two images and the signed URL.
\<close>

lemma handler_end_to_end:
  "handler sample_platform shop_net sample_env (date_event (Some 1714561234567)) =
     Some \<lparr>http = \<lparr>statusCode = 200, content_type = Some ''application/json'',
                    message_field = ''Successfully bundled 2 images. Your download is ready.'',
                    downloadUrl =
                      Some ''https://blobs.example/2024-05-01-9b2f6c1e-0d4a-4c57-8f3e-5a1b7c9d2e40.zip''\<rparr>,
           issued =
             [orders_request shop day_url, product_request shop (IdNum 7),
              product_request shop (IdNum 8),
              \<lparr>url = ''https://cdn.example/7.jpg'', token = None\<rparr>,
              \<lparr>url = ''https://cdn.example/7.jpg'', token = None\<rparr>],
           streamed = Some [\<lparr>name = ''image-1.jpg'', content = ''JFIF-7''\<rparr>,
                            \<lparr>name = ''image-2.jpg'', content = ''JFIF-7''\<rparr>]\<rparr>"
  by code_simp

text \<open>
  Outside the hypothesis of C7 the date fetch issues no request: an invalid date, and the
  last time value there is (the end of its day is out of range), make
  \<^verbatim>\<open>toISOString\<close> throw.
\<close>

lemma date_fetch_invalid:
  "getOrdersByDate net creds None reqs = (Inl (Error ''Invalid time value''), reqs)"
  by (simp add: getOrdersByDate_def setUTCHours_def toISOString_def)

lemma date_fetch_last_instant:
  "getOrdersByDate net creds (Some 8640000000000000) reqs = (Inl (Error ''Invalid time value''), reqs)"
  by (simp add: getOrdersByDate_def setUTCHours_def toISOString_def time_clip_def msPerDay_def
      split: sum.splits)


end
